theory Spec2Isabelle
  imports Complex_Main
begin

section \<open>ClientService of @hsuite/client: data model\<close>

text \<open>
  The embedding follows \<^verbatim>\<open>src/src/client.service.ts\<close>. Every method of the class takes
  the instance's state and returns the state it leaves; a rejected promise or a thrown
  value is \<open>Inl\<close> of what was thrown, a resolved promise \<open>Inr\<close> of its value. The collaborators
  the class only calls (the directory service, \<^verbatim>\<open>Math.random\<close>, axios, the SDK's
  \<^verbatim>\<open>PrivateKey\<close>) are the fields of an environment record; each answer may depend on the
  moment of the call, which is the number of effects the instance has produced so far.
\<close>

subsection \<open>Values that cross the wire\<close>

text \<open>
  A value parsed from a response body. A number is carried by the text that
  \<^verbatim>\<open>Number.prototype.toString\<close> gives it; a string by its UTF-8 bytes; an object by its own
  properties in the order the engine enumerates them. \<open>None\<close> of type \<open>json option\<close>
  is JavaScript's \<^verbatim>\<open>undefined\<close>.
\<close>

datatype json =
    JNull
  | JBool bool
  | JNum string
  | JStr string
  | JArr "json list"
  | JObj "(string \<times> json) list"

text \<open>
  An \<^verbatim>\<open>Error\<close> object, of which the code reads \<^verbatim>\<open>error.code\<close> only (axios sets it on
  a transport failure; a \<^verbatim>\<open>TypeError\<close> of the runtime has none).
\<close>

record error =
  ename :: string
  message :: string
  code :: "string option"

definition TypeError :: "string \<Rightarrow> error" where
  "TypeError msg = \<lparr>ename = ''TypeError'', message = msg, code = None\<rparr>"

text \<open>
  A thrown value, or the reason of a rejected promise. A \<^verbatim>\<open>catch\<close> receives whatever was
  thrown (its parameter has type \<^verbatim>\<open>any\<close>): an object, or \<^verbatim>\<open>undefined\<close> or \<^verbatim>\<open>null\<close>,
  of which no property can be read.
\<close>

datatype thrown =
    ThrowUndefined
  | ThrowNull
  | Thrown error

text \<open>
  The types of \<^verbatim>\<open>@hsuite/smart-network-types\<close>, \<^verbatim>\<open>@hsuite/auth-types\<close> and
  \<^verbatim>\<open>@hsuite/client-types\<close> are declared outside this repository; each is given the fields
  the code reads or writes. \<^verbatim>\<open>ISmartNetwork.IOperator.IEntity\<close> is the operator of a
  directory entry (the code reads its \<^verbatim>\<open>url\<close>); the operator of the configuration adds
  the private key, the operator of the login envelope the \<^verbatim>\<open>nft\<close> reference.
\<close>

record IOperator =
  accountId :: string
  publicKey :: string
  url :: string

record IOptionsOperator = IOperator +
  privateKey :: string

record INft =
  nft_id :: "string option"
  serialNumber :: "string option"

record ILoginOperator = IOperator +
  nft :: INft

text \<open>\<^verbatim>\<open>ISmartNetwork.INetwork.IEntity\<close>: the code reads \<^verbatim>\<open>.membership.operator\<close>.\<close>

record INetworkEntity =
  membership_operator :: IOperator

text \<open>\<^verbatim>\<open>IClient.IOptions\<close>: \<^verbatim>\<open>baseUrl\<close> is optional.\<close>

record IOptions =
  baseUrl :: "string option"
  operator :: IOptionsOperator

text \<open>The challenge as the client signs it, and the login envelope it posts.\<close>

record ISignedPayload =
  serverSignature :: "json option"
  originalPayload :: "json option"

record ISignedData =
  signedPayload :: ISignedPayload
  userSignature :: string

record ILogin =
  signedData :: ISignedData
  login_operator :: ILoginOperator

subsection \<open>Effects and state\<close>

text \<open>
  Every effect the instance has on its collaborators, in the order it happens. A base URL
  is optional because \<^verbatim>\<open>axiosRef.defaults.baseURL\<close> starts undefined.
\<close>

datatype event =
    GetNodes
  | HttpGet "string option" string
  | HttpPost "string option" string ILogin
  | Sign string
  | SetInterval nat
  | ClearInterval nat
  | LoggerVerbose string
  | LoggerError string
  | ConsoleLog json

text \<open>
  The fields of the instance: \<^verbatim>\<open>httpService.axiosRef.defaults.baseURL\<close>, \<^verbatim>\<open>_login\<close>,
  \<^verbatim>\<open>_operator\<close>, the timers of \<^verbatim>\<open>setInterval\<close> that are not cleared, and the effects so far.
\<close>

record ClientService =
  baseURL :: "string option"
  u_login :: "json option"
  u_operator :: "IOperator option"
  intervals :: "nat list"
  trace :: "event list"

text \<open>
  The collaborators. The first argument of each is the moment of the call. The draw of
  \<^verbatim>\<open>Math.random\<close> is a real number; its documented range is \<open>0 \<le> r < 1\<close>.
\<close>

record env =
  getNodes :: "nat \<Rightarrow> thrown + INetworkEntity list"
  Math_random :: "nat \<Rightarrow> real"
  axios_get :: "nat \<Rightarrow> string option \<Rightarrow> string \<Rightarrow> thrown + json"
  axios_post :: "nat \<Rightarrow> string option \<Rightarrow> string \<Rightarrow> ILogin \<Rightarrow> thrown + json"
  PrivateKey_fromString :: "string \<Rightarrow> thrown + string"
  PrivateKey_sign :: "nat \<Rightarrow> string \<Rightarrow> string \<Rightarrow> thrown + string"

definition now :: "ClientService \<Rightarrow> nat" where
  "now st = length (trace st)"

definition emit :: "event \<Rightarrow> ClientService \<Rightarrow> ClientService" where
  "emit e st = st\<lparr>trace := trace st @ [e]\<rparr>"

definition initial :: ClientService where
  "initial = \<lparr>baseURL = None, u_login = None, u_operator = None, intervals = [], trace = []\<rparr>"

text \<open>The getters \<^verbatim>\<open>login\<close> and \<^verbatim>\<open>operator\<close> (lines 94-96, 109-111).\<close>

definition login :: "ClientService \<Rightarrow> json option" where
  "login st = u_login st"

definition get_operator :: "ClientService \<Rightarrow> IOperator option" where
  "get_operator st = u_operator st"

section \<open>Node selection\<close>

text \<open>
  \<^verbatim>\<open>Math.floor(Math.random() * (network.length - 1))\<close> (line 130), for a draw \<open>r\<close> and a
  snapshot of \<open>len\<close> entries. For an empty snapshot the factor is \<open>-1\<close>.
\<close>

definition randomNode :: "real \<Rightarrow> nat \<Rightarrow> int" where
  "randomNode r len = \<lfloor>r * of_int (int len - 1)\<rfloor>"

text \<open>
  \<^verbatim>\<open>network[randomNode]\<close>: an index outside the array reads \<^verbatim>\<open>undefined\<close>, and
  \<^verbatim>\<open>.membership\<close> of \<^verbatim>\<open>undefined\<close> throws a \<^verbatim>\<open>TypeError\<close>.
\<close>

definition at_index :: "'a list \<Rightarrow> int \<Rightarrow> 'a option" where
  "at_index xs i = (if 0 \<le> i \<and> i < int (length xs) then Some (xs ! nat i) else None)"

definition cannot_read :: "string \<Rightarrow> string \<Rightarrow> error" where
  "cannot_read what key =
     TypeError (''Cannot read properties of '' @ what @ '' (reading '' @ [CHR 0x27] @ key @ [CHR 0x27] @ '')'')"

definition undefined_membership :: error where
  "undefined_membership = cannot_read ''undefined'' ''membership''"

text \<open>\<^verbatim>\<open>generateBaseUrl\<close> (lines 128-133).\<close>

definition generateBaseUrl :: "env \<Rightarrow> ClientService \<Rightarrow> (thrown + string) \<times> ClientService" where
  "generateBaseUrl ev st =
     (let st1 = emit GetNodes st in
      case getNodes ev (now st) of
        Inl e \<Rightarrow> (Inl e, st1)
      | Inr network \<Rightarrow>
          (case at_index network (randomNode (Math_random ev (now st1)) (length network)) of
             None \<Rightarrow> (Inl (Thrown undefined_membership), st1)
           | Some entity \<Rightarrow>
               (let st2 = st1\<lparr>u_operator := Some (membership_operator entity)\<rparr>
                in (Inr (url (membership_operator entity)), st2))))"

section \<open>The challenge and its signature\<close>

text \<open>
  Reading a property of a parsed value, for the names \<^verbatim>\<open>signedData\<close>, \<^verbatim>\<open>signature\<close> and
  \<^verbatim>\<open>payload\<close> of lines 207-208 (none of them a property of a string, a number or an
  array): \<^verbatim>\<open>undefined\<close> and \<^verbatim>\<open>null\<close> throw, an object gives its property or
  \<^verbatim>\<open>undefined\<close>, any other value gives \<^verbatim>\<open>undefined\<close>.
\<close>

definition read_prop :: "json option \<Rightarrow> string \<Rightarrow> thrown + json option" where
  "read_prop v key =
     (case v of
        None \<Rightarrow> Inl (Thrown (cannot_read ''undefined'' key))
      | Some JNull \<Rightarrow> Inl (Thrown (cannot_read ''null'' key))
      | Some (JObj kvs) \<Rightarrow> Inr (map_of kvs key)
      | Some _ \<Rightarrow> Inr None)"

text \<open>
  \<^verbatim>\<open>JSON.stringify\<close> (line 277). A string is quoted with the escapes of
  \<^verbatim>\<open>QuoteJSONString\<close>; an array and an object keep the order of their members.
\<close>

definition hex_digit :: "nat \<Rightarrow> char" where
  "hex_digit n = ''0123456789abcdef'' ! n"

definition quote_char :: "char \<Rightarrow> string" where
  "quote_char c =
     (if c = CHR 0x22 then [CHR 0x5C, CHR 0x22]
      else if c = CHR 0x5C then [CHR 0x5C, CHR 0x5C]
      else if c = CHR 0x08 then [CHR 0x5C, CHR ''b'']
      else if c = CHR 0x0C then [CHR 0x5C, CHR ''f'']
      else if c = CHR 0x0A then [CHR 0x5C, CHR ''n'']
      else if c = CHR 0x0D then [CHR 0x5C, CHR ''r'']
      else if c = CHR 0x09 then [CHR 0x5C, CHR ''t'']
      else if (of_char c :: nat) < 32
        then [CHR 0x5C, CHR ''u'', CHR ''0'', CHR ''0'',
              hex_digit (of_char c div 16), hex_digit (of_char c mod 16)]
      else [c])"

definition QuoteJSONString :: "string \<Rightarrow> string" where
  "QuoteJSONString s = [CHR 0x22] @ concat (map quote_char s) @ [CHR 0x22]"

fun join_comma :: "string list \<Rightarrow> string" where
  "join_comma [] = []"
| "join_comma [x] = x"
| "join_comma (x # y # ys) = x @ '','' @ join_comma (y # ys)"

fun JSON_stringify :: "json \<Rightarrow> string" where
  "JSON_stringify JNull = ''null''"
| "JSON_stringify (JBool b) = (if b then ''true'' else ''false'')"
| "JSON_stringify (JNum n) = n"
| "JSON_stringify (JStr s) = QuoteJSONString s"
| "JSON_stringify (JArr xs) = ''['' @ join_comma (map JSON_stringify xs) @ '']''"
| "JSON_stringify (JObj kvs) =
     ''{'' @ join_comma (map (\<lambda>kv. QuoteJSONString (fst kv) @ '':'' @ JSON_stringify (snd kv)) kvs) @ ''}''"

text \<open>
  \<^verbatim>\<open>JSON.stringify(payload)\<close> for the object literal of lines 206-209: its two properties
  in the order they are written, a property whose value is \<^verbatim>\<open>undefined\<close> left out.
  \<^verbatim>\<open>Buffer.from\<close> then takes the UTF-8 bytes, which is how a string is carried here.
\<close>

definition json_member :: "string \<Rightarrow> json option \<Rightarrow> string list" where
  "json_member key v =
     (case v of None \<Rightarrow> [] | Some j \<Rightarrow> [QuoteJSONString key @ '':'' @ JSON_stringify j])"

definition stringify_payload :: "ISignedPayload \<Rightarrow> string" where
  "stringify_payload payload =
     ''{'' @ join_comma (json_member ''serverSignature'' (serverSignature payload)
                         @ json_member ''originalPayload'' (originalPayload payload)) @ ''}''"

text \<open>
  \<^verbatim>\<open>signNodeData\<close> (lines 274-295). Parsing the key and signing are the SDK's and may
  throw; the bytes handed to \<^verbatim>\<open>privateKey.sign\<close> are recorded as the \<open>Sign\<close> effect.
\<close>

definition signNodeData ::
  "IOptions \<Rightarrow> env \<Rightarrow> ClientService \<Rightarrow> ISignedPayload \<Rightarrow> (thrown + ILogin) \<times> ClientService" where
  "signNodeData opts ev st payload =
     (case PrivateKey_fromString ev (privateKey (operator opts)) of
        Inl e \<Rightarrow> (Inl e, st)
      | Inr key \<Rightarrow>
          (let bytes = stringify_payload payload;
               st1 = emit (Sign bytes) st
           in case PrivateKey_sign ev (now st) key bytes of
                Inl e \<Rightarrow> (Inl e, st1)
              | Inr signature \<Rightarrow>
                  (Inr \<lparr>signedData = \<lparr>signedPayload = payload, userSignature = signature\<rparr>,
                        login_operator =
                          \<lparr>accountId = accountId (operator opts),
                           publicKey = publicKey (operator opts),
                           url = url (operator opts),
                           nft = \<lparr>nft_id = None, serialNumber = None\<rparr>\<rparr>\<rparr>,
                   st1)))"

section \<open>Handshake, failover and startup\<close>

text \<open>A configured \<^verbatim>\<open>baseUrl\<close> counts when it is truthy: defined and not the empty string.\<close>

definition truthy :: "string option \<Rightarrow> bool" where
  "truthy s = (case s of None \<Rightarrow> False | Some x \<Rightarrow> x \<noteq> [])"

definition startsWith :: "string \<Rightarrow> string \<Rightarrow> bool" where
  "startsWith s p = (take (length p) s = p)"

text \<open>A template literal prints \<^verbatim>\<open>undefined\<close> for an undefined value.\<close>

definition template :: "string option \<Rightarrow> string" where
  "template s = (case s of None \<Rightarrow> ''undefined'' | Some x \<Rightarrow> x)"

text \<open>
  The \<^verbatim>\<open>try\<close> block of \<^verbatim>\<open>connectToNode\<close> (lines 204-228): the challenge request, the
  payload, its signature, the login request, the recurring health check. The timer is
  named by the moment it is created.
\<close>

definition connectToNode_try ::
  "IOptions \<Rightarrow> env \<Rightarrow> ClientService \<Rightarrow> (thrown + json) \<times> ClientService" where
  "connectToNode_try opts ev st =
     (let st1 = emit (HttpGet (baseURL st) ''/auth/web3/request'') st in
      case axios_get ev (now st) (baseURL st) ''/auth/web3/request'' of
        Inl e \<Rightarrow> (Inl e, st1)
      | Inr data \<Rightarrow>
          (case read_prop (Some data) ''signedData'' of
             Inl e \<Rightarrow> (Inl e, st1)
           | Inr sd \<Rightarrow>
          (case read_prop sd ''signature'' of
             Inl e \<Rightarrow> (Inl e, st1)
           | Inr sig \<Rightarrow>
          (case read_prop (Some data) ''payload'' of
             Inl e \<Rightarrow> (Inl e, st1)
           | Inr pl \<Rightarrow>
          (case signNodeData opts ev st1 \<lparr>serverSignature = sig, originalPayload = pl\<rparr> of
             (Inl e, st2) \<Rightarrow> (Inl e, st2)
           | (Inr envelope, st2) \<Rightarrow>
               (let st3 = emit (HttpPost (baseURL st2) ''/auth/web3/login'' envelope) st2 in
                case axios_post ev (now st2) (baseURL st2) ''/auth/web3/login'' envelope of
                  Inl e \<Rightarrow> (Inl e, st3)
                | Inr loginRequest \<Rightarrow>
                    (let interval = now st3;
                         st4 = (emit (SetInterval interval) st3)
                                 \<lparr>intervals := intervals st3 @ [interval]\<rparr>
                     in (Inr loginRequest, st4))))))))"

text \<open>
  \<^verbatim>\<open>error.code\<close> of a caught value (lines 162, 180): the code of an object; of
  \<^verbatim>\<open>undefined\<close> and \<^verbatim>\<open>null\<close> the read itself throws.
\<close>

definition read_code :: "thrown \<Rightarrow> thrown + string option" where
  "read_code v =
     (case v of
        ThrowUndefined \<Rightarrow> Inl (Thrown (cannot_read ''undefined'' ''code''))
      | ThrowNull \<Rightarrow> Inl (Thrown (cannot_read ''null'' ''code''))
      | Thrown e \<Rightarrow> Inr (code e))"

text \<open>\<^verbatim>\<open>networkResilience\<close> (lines 179-185).\<close>

definition includes_code :: "string list \<Rightarrow> string option \<Rightarrow> bool" where
  "includes_code xs c = (case c of None \<Rightarrow> False | Some x \<Rightarrow> x \<in> set xs)"

definition networkResilience ::
  "thrown \<Rightarrow> env \<Rightarrow> ClientService \<Rightarrow> (thrown + unit) \<times> ClientService" where
  "networkResilience error ev st =
     (case read_code error of
        Inl e \<Rightarrow> (Inl e, st)
      | Inr c \<Rightarrow>
          if includes_code [''ECONNREFUSED'', ''ECONNABORTED'', ''ECONNRESET''] c
          then (case generateBaseUrl ev st of
                  (Inl e, st1) \<Rightarrow> (Inl e, st1)
                | (Inr u, st1) \<Rightarrow> (Inr (), st1\<lparr>baseURL := Some u\<rparr>))
          else (Inl error, st))"

text \<open>
  \<^verbatim>\<open>connectToNode\<close> (lines 201-242). The method calls itself after a failover, with no
  bound on the number of attempts; the first argument bounds them here, and \<open>None\<close> says
  that the bound was reached before the promise settled.
\<close>

fun connectToNode ::
  "nat \<Rightarrow> IOptions \<Rightarrow> env \<Rightarrow> ClientService \<Rightarrow> ((thrown + json) \<times> ClientService) option" where
  "connectToNode 0 opts ev st = None"
| "connectToNode (Suc n) opts ev st =
     (case connectToNode_try opts ev st of
        (Inr loginRequest, st1) \<Rightarrow> Some (Inr loginRequest, st1)
      | (Inl error, st1) \<Rightarrow>
          (if truthy (baseUrl opts) then Some (Inl error, st1)
           else (case networkResilience error ev st1 of
                   (Inl e, st2) \<Rightarrow> Some (Inl e, st2)
                 | (Inr _, st2) \<Rightarrow> connectToNode n opts ev st2)))"

text \<open>
  \<^verbatim>\<open>onModuleInit\<close> (lines 147-165): the choice of the base URL (lines 149-153), the
  \<^verbatim>\<open>try\<close> block, then the method with its \<^verbatim>\<open>catch\<close>. \<^verbatim>\<open>startsWith\<close> of an undefined
  base URL throws. The \<^verbatim>\<open>catch\<close> builds the log line from the base URL and
  \<^verbatim>\<open>error.code\<close> before it logs; when that read throws, nothing is logged and the method
  rejects.
\<close>

definition resolveBaseUrl :: "IOptions \<Rightarrow> env \<Rightarrow> ClientService \<Rightarrow> (thrown + unit) \<times> ClientService" where
  "resolveBaseUrl opts ev st =
     (if truthy (baseUrl opts) then (Inr (), st\<lparr>baseURL := baseUrl opts\<rparr>)
      else (case generateBaseUrl ev st of
              (Inl e, st1) \<Rightarrow> (Inl e, st1)
            | (Inr u, st1) \<Rightarrow> (Inr (), st1\<lparr>baseURL := Some u\<rparr>)))"

definition onModuleInit_try ::
  "nat \<Rightarrow> IOptions \<Rightarrow> env \<Rightarrow> ClientService \<Rightarrow> ((thrown + unit) \<times> ClientService) option" where
  "onModuleInit_try n opts ev st =
     (case resolveBaseUrl opts ev st of
        (Inl e, st1) \<Rightarrow> Some (Inl e, st1)
      | (Inr _, st1) \<Rightarrow>
          (case baseURL st1 of
             None \<Rightarrow> Some (Inl (Thrown (cannot_read ''undefined'' ''startsWith'')), st1)
           | Some b \<Rightarrow>
               if startsWith b ''http'' then
                 (let st2 = emit (LoggerVerbose (''trying to connect with '' @ b @ ''...'')) st1 in
                  case connectToNode n opts ev st2 of
                    None \<Rightarrow> None
                  | Some (Inl e, st3) \<Rightarrow> Some (Inl e, st3)
                  | Some (Inr credentials, st3) \<Rightarrow>
                      (let st4 = st3\<lparr>u_login := Some credentials\<rparr> in
                       Some (Inr (), emit (LoggerVerbose
                         (''connected to node: '' @ template (baseURL st4))) st4)))
               else Some (Inr (), st1)))"

definition onModuleInit ::
  "nat \<Rightarrow> IOptions \<Rightarrow> env \<Rightarrow> ClientService \<Rightarrow> ((thrown + unit) \<times> ClientService) option" where
  "onModuleInit n opts ev st =
     (case onModuleInit_try n opts ev st of
        None \<Rightarrow> None
      | Some (Inr u, st1) \<Rightarrow> Some (Inr u, st1)
      | Some (Inl error, st1) \<Rightarrow>
          (case read_code error of
             Inl e \<Rightarrow> Some (Inl e, st1)
           | Inr c \<Rightarrow>
               Some (Inr (), emit (LoggerError (''failed to connect to node: ''
                                                @ template (baseURL st1) @ '': '' @ template c)) st1)))"

section \<open>The recurring health check\<close>

definition clearInterval :: "nat \<Rightarrow> ClientService \<Rightarrow> ClientService" where
  "clearInterval interval st =
     (emit (ClearInterval interval) st)\<lparr>intervals := removeAll interval (intervals st)\<rparr>"

text \<open>
  The callback of \<^verbatim>\<open>setInterval\<close> (lines 218-226) for the timer \<open>interval\<close>, in its two
  halves: up to the \<^verbatim>\<open>await\<close> of the profile request, and from the answer on. The value
  of the re-run handshake is dropped (line 224); when it rejects, so does the callback.
\<close>

definition healthCheck_request :: "ClientService \<Rightarrow> ClientService" where
  "healthCheck_request st = emit (HttpGet (baseURL st) ''/auth/profile'') st"

definition healthCheck_answer ::
  "nat \<Rightarrow> IOptions \<Rightarrow> env \<Rightarrow> nat \<Rightarrow> thrown + json \<Rightarrow> ClientService
     \<Rightarrow> ((thrown + unit) \<times> ClientService) option" where
  "healthCheck_answer n opts ev interval answer st =
     (case answer of
        Inr profile \<Rightarrow> Some (Inr (), emit (ConsoleLog profile) st)
      | Inl error \<Rightarrow>
          (case connectToNode n opts ev (clearInterval interval st) of
             None \<Rightarrow> None
           | Some (Inl e, st1) \<Rightarrow> Some (Inl e, st1)
           | Some (Inr _, st1) \<Rightarrow> Some (Inr (), st1)))"

text \<open>One run of the callback with nothing else in between.\<close>

definition healthCheck ::
  "nat \<Rightarrow> IOptions \<Rightarrow> env \<Rightarrow> nat \<Rightarrow> ClientService \<Rightarrow> ((thrown + unit) \<times> ClientService) option" where
  "healthCheck n opts ev interval st =
     healthCheck_answer n opts ev interval
       (axios_get ev (now st) (baseURL st) ''/auth/profile'') (healthCheck_request st)"

section \<open>Executions of the timer callbacks\<close>

text \<open>
  The event loop around the instance. A timer that is not cleared may fire at any time;
  its callback issues the profile request and is suspended at the \<^verbatim>\<open>await\<close>; the answer
  arrives later, and the callback continues from there. Requests in flight are kept with
  the timer of their callback, the moment they were issued and the base URL they used.
\<close>

record system =
  client :: ClientService
  pending :: "(nat \<times> nat \<times> string option) list"

datatype step = Timer nat | Answer

definition timer_fires :: "nat \<Rightarrow> system \<Rightarrow> system option" where
  "timer_fires interval sys =
     (if interval \<in> set (intervals (client sys))
      then Some \<lparr>client = healthCheck_request (client sys),
                 pending = pending sys @ [(interval, now (client sys), baseURL (client sys))]\<rparr>
      else None)"

definition answer_arrives :: "nat \<Rightarrow> IOptions \<Rightarrow> env \<Rightarrow> system \<Rightarrow> system option" where
  "answer_arrives n opts ev sys =
     (case pending sys of
        [] \<Rightarrow> None
      | (interval, t, b) # rest \<Rightarrow>
          (case healthCheck_answer n opts ev interval (axios_get ev t b ''/auth/profile'')
                  (client sys) of
             None \<Rightarrow> None
           | Some (_, st) \<Rightarrow> Some \<lparr>client = st, pending = rest\<rparr>))"

fun run :: "nat \<Rightarrow> IOptions \<Rightarrow> env \<Rightarrow> step list \<Rightarrow> system \<Rightarrow> system option" where
  "run n opts ev [] sys = Some sys"
| "run n opts ev (Timer interval # steps) sys =
     (case timer_fires interval sys of
        None \<Rightarrow> None
      | Some sys1 \<Rightarrow> run n opts ev steps sys1)"
| "run n opts ev (Answer # steps) sys =
     (case answer_arrives n opts ev sys of
        None \<Rightarrow> None
      | Some sys1 \<Rightarrow> run n opts ev steps sys1)"

text \<open>An execution in which every callback gets its answer before a timer fires again.\<close>

definition one_at_a_time :: "nat list \<Rightarrow> step list" where
  "one_at_a_time ticks = concat (map (\<lambda>interval. [Timer interval, Answer]) ticks)"

text \<open>The timers scheduled after a sequence of effects, and after each of its prefixes.\<close>

definition timers_after :: "nat list \<Rightarrow> event \<Rightarrow> nat list" where
  "timers_after xs e =
     (case e of SetInterval i \<Rightarrow> xs @ [i] | ClearInterval i \<Rightarrow> removeAll i xs | _ \<Rightarrow> xs)"

definition live :: "event list \<Rightarrow> nat list" where
  "live tr = foldl timers_after [] tr"

definition at_most_one_timer :: "event list \<Rightarrow> bool" where
  "at_most_one_timer tr = list_all (\<lambda>k. length (live (take k tr)) \<le> 1) [0..<Suc (length tr)]"

text \<open>The invariant: the timers of the instance are those its effects leave, never two.\<close>

definition timers_ok :: "ClientService \<Rightarrow> bool" where
  "timers_ok st \<longleftrightarrow> intervals st = live (trace st) \<and> at_most_one_timer (trace st)"

section \<open>Names of the specification, and concrete worlds\<close>

text \<open>
  The specification's class of recoverable transport errors, in its own words:
  connection refused, connection aborted, connection reset.
\<close>

definition recoverable :: "thrown \<Rightarrow> bool" where
  "recoverable error =
     (case error of
        Thrown e \<Rightarrow> code e = Some ''ECONNREFUSED'' \<or> code e = Some ''ECONNABORTED''
                    \<or> code e = Some ''ECONNRESET''
      | _ \<Rightarrow> False)"

text \<open>Two directory entries, a challenge, an operator and two configurations.\<close>

definition node_a :: INetworkEntity where
  "node_a = \<lparr>membership_operator =
               \<lparr>accountId = ''0.0.100'', publicKey = ''pk-a'', url = ''http://node-a''\<rparr>\<rparr>"

definition node_b :: INetworkEntity where
  "node_b = \<lparr>membership_operator =
               \<lparr>accountId = ''0.0.200'', publicKey = ''pk-b'', url = ''http://node-b''\<rparr>\<rparr>"

definition challenge :: json where
  "challenge = JObj [(''signedData'', JObj [(''signature'', JStr ''S'')]), (''payload'', JStr ''P'')]"

definition dynamic_options :: IOptions where
  "dynamic_options =
     \<lparr>baseUrl = None,
      operator = \<lparr>accountId = ''0.0.7'', publicKey = ''pub'', url = ''http://me'',
                  privateKey = ''key''\<rparr>\<rparr>"

definition fixed_options :: IOptions where
  "fixed_options = dynamic_options\<lparr>baseUrl := Some ''http://pinned''\<rparr>"

definition axios_error :: "string \<Rightarrow> error" where
  "axios_error c = \<lparr>ename = ''AxiosError'', message = c, code = Some c\<rparr>"

text \<open>A world of two nodes that answers every request; the draw is 999/1000.\<close>

definition two_nodes :: env where
  "two_nodes =
     \<lparr>getNodes = (\<lambda>t. Inr [node_a, node_b]),
      Math_random = (\<lambda>t. 999 / 1000),
      axios_get = (\<lambda>t b p. Inr challenge),
      axios_post = (\<lambda>t b p e. Inr (JObj [(''token'', JStr ''T1'')])),
      PrivateKey_fromString = (\<lambda>k. Inr k),
      PrivateKey_sign = (\<lambda>t k b. Inr (k @ b))\<rparr>"

text \<open>A world whose directory is empty and whose nodes refuse every connection.\<close>

definition empty_directory :: env where
  "empty_directory =
     two_nodes\<lparr>getNodes := (\<lambda>t. Inr []),
               axios_get := (\<lambda>t b p. Inl (Thrown (axios_error ''ECONNREFUSED'')))\<rparr>"

text \<open>The same two nodes, the first request refused.\<close>

definition refuses_once :: env where
  "refuses_once =
     two_nodes\<lparr>axios_get := (\<lambda>t b p. if t = 0 then Inl (Thrown (axios_error ''ECONNREFUSED''))
                                       else Inr challenge)\<rparr>"

text \<open>The effects that schedule or cancel a recurring task.\<close>

fun is_timer :: "event \<Rightarrow> bool" where
  "is_timer (SetInterval i) = True"
| "is_timer (ClearInterval i) = True"
| "is_timer _ = False"

text \<open>The instance with its transport pointed at the second node.\<close>

definition at_node_b :: ClientService where
  "at_node_b = initial\<lparr>baseURL := Some ''http://node-b''\<rparr>"

definition token :: "string \<Rightarrow> json" where
  "token t = JObj [(''token'', JStr t)]"

text \<open>
  A world in which the session is lost: every profile request is answered with an error,
  and a login after the sixth effect is answered with a second credential.
\<close>

definition session_lost :: env where
  "session_lost =
     two_nodes\<lparr>axios_get := (\<lambda>t b p. if p = ''/auth/profile'' then Inl (Thrown (axios_error ''ERR_BAD_REQUEST''))
                                       else Inr challenge),
               axios_post := (\<lambda>t b p e. Inr (token (if t < 6 then ''T1'' else ''T2'')))\<rparr>"

text \<open>The states that world reaches: after startup, and after the first health check.\<close>

definition after_startup :: ClientService where
  "after_startup = snd (the (onModuleInit 1 dynamic_options session_lost initial))"

definition after_reauthentication :: ClientService where
  "after_reauthentication = snd (the (healthCheck 1 dynamic_options session_lost 5 after_startup))"

text \<open>The payload of that challenge.\<close>

definition challenge_payload :: ISignedPayload where
  "challenge_payload = \<lparr>serverSignature = Some (JStr ''S''), originalPayload = Some (JStr ''P'')\<rparr>"

text \<open>
  The bytes \<^verbatim>\<open>{"serverSignature":"S","originalPayload":"P"}\<close>, written out, and the
  envelope whose signature is what the worlds here return for them: the key followed by
  the bytes.
\<close>

definition challenge_bytes :: string where
  "challenge_bytes =
     ''{'' @ [CHR 0x22] @ ''serverSignature'' @ [CHR 0x22] @ '':'' @ [CHR 0x22] @ ''S'' @ [CHR 0x22]
     @ '','' @ [CHR 0x22] @ ''originalPayload'' @ [CHR 0x22] @ '':'' @ [CHR 0x22] @ ''P'' @ [CHR 0x22]
     @ ''}''"

definition challenge_envelope :: ILogin where
  "challenge_envelope =
     \<lparr>signedData = \<lparr>signedPayload = challenge_payload,
                    userSignature = ''key'' @ challenge_bytes\<rparr>,
      login_operator = \<lparr>accountId = ''0.0.7'', publicKey = ''pub'', url = ''http://me'',
                        nft = \<lparr>nft_id = None, serialNumber = None\<rparr>\<rparr>\<rparr>"

text \<open>The states after one handshake, and after a handshake whose first attempt is refused.\<close>

definition first_handshake :: ClientService where
  "first_handshake = snd (the (connectToNode 1 dynamic_options two_nodes at_node_b))"

definition retried_handshake :: ClientService where
  "retried_handshake = snd (the (connectToNode 2 dynamic_options refuses_once at_node_b))"

text \<open>
  The same two nodes, the challenge request of startup (the third effect) refused; and a
  world in which every node refuses every request.
\<close>

definition refused_at_startup :: env where
  "refused_at_startup =
     two_nodes\<lparr>axios_get := (\<lambda>t b p. if t = 2 then Inl (Thrown (axios_error ''ECONNREFUSED''))
                                       else Inr challenge)\<rparr>"

definition all_refuse :: env where
  "all_refuse = two_nodes\<lparr>axios_get := (\<lambda>t b p. Inl (Thrown (axios_error ''ECONNREFUSED'')))\<rparr>"

definition recovered_startup :: ClientService where
  "recovered_startup = snd (the (onModuleInit 2 dynamic_options refused_at_startup initial))"

text \<open>A world whose directory service rejects with \<^verbatim>\<open>null\<close>.\<close>

definition directory_rejects_with_null :: env where
  "directory_rejects_with_null = two_nodes\<lparr>getNodes := (\<lambda>t. Inl ThrowNull)\<rparr>"

text \<open>A world in which every request is rejected with \<^verbatim>\<open>null\<close>.\<close>

definition rejects_with_null :: env where
  "rejects_with_null = two_nodes\<lparr>axios_get := (\<lambda>t b p. Inl ThrowNull)\<rparr>"

text \<open>A configuration whose base URL is not an HTTP one.\<close>

definition websocket_options :: IOptions where
  "websocket_options = dynamic_options\<lparr>baseUrl := Some ''ws://pinned''\<rparr>"

text \<open>A world whose only node answers the challenge request with a server error.\<close>

definition server_error :: env where
  "server_error =
     two_nodes\<lparr>axios_get := (\<lambda>t b p. Inl (Thrown (axios_error ''ERR_BAD_RESPONSE'')))\<rparr>"

text \<open>The state that world leaves after startup.\<close>

definition failed_startup :: ClientService where
  "failed_startup = snd (the (onModuleInit 1 dynamic_options server_error initial))"

section \<open>Properties\<close>

subsection \<open>State bookkeeping\<close>

lemma emit_simps [simp]:
  "trace (emit e st) = trace st @ [e]"
  "baseURL (emit e st) = baseURL st"
  "u_login (emit e st) = u_login st"
  "u_operator (emit e st) = u_operator st"
  "intervals (emit e st) = intervals st"
  "now (emit e st) = Suc (now st)"
  by (simp_all add: emit_def now_def)

lemma now_update [simp]:
  "now (st\<lparr>baseURL := b\<rparr>) = now st"
  "now (st\<lparr>u_login := l\<rparr>) = now st"
  "now (st\<lparr>u_operator := p\<rparr>) = now st"
  "now (st\<lparr>intervals := i\<rparr>) = now st"
  by (simp_all add: now_def)

text \<open>The definitions a concrete run unfolds.\<close>

lemmas run_defs =
  onModuleInit_def onModuleInit_try_def resolveBaseUrl_def generateBaseUrl_def
  connectToNode_try_def signNodeData_def networkResilience_def healthCheck_def
  healthCheck_answer_def healthCheck_request_def clearInterval_def
  read_prop_def at_index_def randomNode_def truthy_def startsWith_def template_def
  includes_code_def read_code_def emit_def now_def initial_def login_def Let_def

lemmas world_defs =
  two_nodes_def empty_directory_def refuses_once_def session_lost_def
  refused_at_startup_def all_refuse_def directory_rejects_with_null_def
  node_a_def node_b_def challenge_def dynamic_options_def fixed_options_def
  axios_error_def token_def

subsection \<open>Node selection\<close>

lemma randomNode_upper:
  assumes "0 \<le> r" "r < 1" "2 \<le> len"
  shows "randomNode r len < int len - 1"
proof -
  have "r * of_int (int len - 1) < of_int (int len - 1)"
    using assms by simp
  then show ?thesis
    unfolding randomNode_def by (simp add: floor_less_iff)
qed

lemma randomNode_lower:
  assumes "0 \<le> r" "1 \<le> len"
  shows "0 \<le> randomNode r len"
  using assms unfolding randomNode_def by simp

lemma at_index_empty:
  "at_index [] i = None"
  by (simp add: at_index_def)

text \<open>
  Claim C1 asks that every index of a non-empty snapshot of \<open>N\<close> entries, the last one
  included, can be selected. The code multiplies the draw by \<open>N - 1\<close>, not by \<open>N\<close>: for
  every draw \<open>0 \<le> r < 1\<close> and every snapshot of two or more entries the index that
  \<^verbatim>\<open>generateBaseUrl\<close> computes is below \<open>N - 1\<close>, so the last entry is never the selected
  one. The theorem states what the code does on such a snapshot.
\<close>

theorem generateBaseUrl_never_selects_last_entry:
  assumes "getNodes ev (now st) = Inr network"
    and "2 \<le> length network"
    and "0 \<le> Math_random ev (Suc (now st))"
    and "Math_random ev (Suc (now st)) < 1"
  shows "\<exists>i. i + 1 < length network \<and>
           randomNode (Math_random ev (Suc (now st))) (length network) = int i \<and>
           generateBaseUrl ev st =
             (Inr (url (membership_operator (network ! i))),
              (emit GetNodes st)\<lparr>u_operator := Some (membership_operator (network ! i))\<rparr>)"
proof -
  let ?k = "randomNode (Math_random ev (Suc (now st))) (length network)"
  have up: "?k < int (length network) - 1"
    using assms by (intro randomNode_upper) auto
  have lo: "0 \<le> ?k"
    using assms by (intro randomNode_lower) auto
  have sel: "at_index network ?k = Some (network ! nat ?k)"
    using up lo by (simp add: at_index_def)
  have "generateBaseUrl ev st =
          (Inr (url (membership_operator (network ! nat ?k))),
           (emit GetNodes st)\<lparr>u_operator := Some (membership_operator (network ! nat ?k))\<rparr>)"
    using assms(1) sel by (simp add: generateBaseUrl_def Let_def)
  moreover have "nat ?k + 1 < length network" using up lo by linarith
  moreover have "?k = int (nat ?k)" using lo by simp
  ultimately show ?thesis by blast
qed

theorem generateBaseUrl_never_selects_last_entry_witness:
  "\<exists>i. i + 1 < length [node_a, node_b] \<and>
       randomNode (Math_random two_nodes (Suc (now initial))) (length [node_a, node_b]) = int i \<and>
       generateBaseUrl two_nodes initial =
         (Inr (url (membership_operator ([node_a, node_b] ! i))),
          (emit GetNodes initial)\<lparr>u_operator := Some (membership_operator ([node_a, node_b] ! i))\<rparr>)"
  using generateBaseUrl_never_selects_last_entry [of two_nodes initial "[node_a, node_b]"]
  by (simp add: two_nodes_def)

lemma generateBaseUrl_frame:
  assumes "generateBaseUrl ev st = (r, st')"
  shows "trace st' = trace st @ [GetNodes] \<and> baseURL st' = baseURL st \<and>
         u_login st' = u_login st \<and> intervals st' = intervals st"
  using assms
  by (auto simp: generateBaseUrl_def Let_def split: sum.splits option.splits)

lemma generateBaseUrl_empty:
  assumes "getNodes ev (now st) = Inr []"
  shows "generateBaseUrl ev st = (Inl (Thrown undefined_membership), emit GetNodes st)"
  using assms by (simp add: generateBaseUrl_def Let_def at_index_def)

lemma includes_code_recoverable:
  "includes_code [''ECONNREFUSED'', ''ECONNABORTED'', ''ECONNRESET''] (code e) = recoverable (Thrown e)"
  by (auto simp: includes_code_def recoverable_def split: option.splits)

lemma recoverable_object:
  assumes "recoverable error"
  obtains e where "error = Thrown e" "read_code error = Inr (code e)"
  using assms by (cases error) (simp_all add: recoverable_def read_code_def)

lemma networkResilience_recoverable:
  assumes "recoverable error"
  shows "networkResilience error ev st =
           (case generateBaseUrl ev st of
              (Inl e, st1) \<Rightarrow> (Inl e, st1)
            | (Inr u, st1) \<Rightarrow> (Inr (), st1\<lparr>baseURL := Some u\<rparr>))"
proof -
  from assms obtain e where e: "error = Thrown e" "read_code error = Inr (code e)"
    by (rule recoverable_object)
  with assms show ?thesis
    by (simp add: networkResilience_def includes_code_recoverable)
qed

subsection \<open>The parts of a handshake\<close>

lemma signNodeData_cases:
  "signNodeData opts ev st payload = (r, st') \<Longrightarrow>
     (st' = st \<and> (\<exists>e. r = Inl e \<and> PrivateKey_fromString ev (privateKey (operator opts)) = Inl e)) \<or>
     (st' = emit (Sign (stringify_payload payload)) st \<and>
        (\<exists>key. PrivateKey_fromString ev (privateKey (operator opts)) = Inr key \<and>
           (case PrivateKey_sign ev (now st) key (stringify_payload payload) of
              Inl e \<Rightarrow> r = Inl e
            | Inr signature \<Rightarrow>
                r = Inr \<lparr>signedData = \<lparr>signedPayload = payload, userSignature = signature\<rparr>,
                        login_operator =
                          \<lparr>accountId = accountId (operator opts),
                           publicKey = publicKey (operator opts),
                           url = url (operator opts),
                           nft = \<lparr>nft_id = None, serialNumber = None\<rparr>\<rparr>\<rparr>)))"
  by (auto simp: signNodeData_def Let_def split: sum.splits)

lemma connectToNode_try_Inr:
  assumes "connectToNode_try opts ev st = (Inr credentials, st')"
  shows "\<exists>data sd sig pl envelope.
      axios_get ev (now st) (baseURL st) ''/auth/web3/request'' = Inr data \<and>
      read_prop (Some data) ''signedData'' = Inr sd \<and>
      read_prop sd ''signature'' = Inr sig \<and>
      read_prop (Some data) ''payload'' = Inr pl \<and>
      fst (signNodeData opts ev (emit (HttpGet (baseURL st) ''/auth/web3/request'') st)
             \<lparr>serverSignature = sig, originalPayload = pl\<rparr>) = Inr envelope \<and>
      axios_post ev (now st + 2) (baseURL st) ''/auth/web3/login'' envelope = Inr credentials \<and>
      trace st' = trace st @
        [HttpGet (baseURL st) ''/auth/web3/request'',
         Sign (stringify_payload \<lparr>serverSignature = sig, originalPayload = pl\<rparr>),
         HttpPost (baseURL st) ''/auth/web3/login'' envelope,
         SetInterval (now st + 3)] \<and>
      intervals st' = intervals st @ [now st + 3] \<and>
      baseURL st' = baseURL st \<and> u_login st' = u_login st \<and> u_operator st' = u_operator st"
  using assms
  by (auto simp: connectToNode_try_def Let_def split: sum.splits prod.splits dest!: signNodeData_cases)

lemma connectToNode_try_Inl:
  assumes "connectToNode_try opts ev st = (Inl e, st')"
  shows "\<exists>evs. trace st' = trace st @ HttpGet (baseURL st) ''/auth/web3/request'' # evs \<and>
           (\<forall>x \<in> set evs. (\<exists>b. x = Sign b) \<or> (\<exists>b p v. x = HttpPost b p v)) \<and>
      intervals st' = intervals st \<and>
      baseURL st' = baseURL st \<and> u_login st' = u_login st \<and> u_operator st' = u_operator st"
  using assms
  by (auto simp: connectToNode_try_def Let_def split: sum.splits prod.splits dest!: signNodeData_cases)

subsection \<open>The empty directory\<close>

text \<open>
  Claim C2, as stated: on an empty snapshot, selection fails with the \<open>EmptyDirectory\<close>
  error. The code has no such error and no test for an empty snapshot: the index reads
  \<^verbatim>\<open>undefined\<close>, and what is thrown is the runtime's \<^verbatim>\<open>TypeError\<close> for
  \<^verbatim>\<open>undefined.membership\<close>.
\<close>

theorem empty_directory_error_is_a_TypeError:
  "fst (generateBaseUrl empty_directory initial) = Inl (Thrown undefined_membership) \<and>
   ename undefined_membership = ''TypeError'' \<and>
   ename undefined_membership \<noteq> ''EmptyDirectory'' \<and>
   message undefined_membership = ''Cannot read properties of undefined (reading 'membership')''"
  by (simp add: generateBaseUrl_def Let_def at_index_def empty_directory_def two_nodes_def
      undefined_membership_def cannot_read_def TypeError_def)

text \<open>
  Claim C2, amended: on an empty snapshot, selection fails with that \<^verbatim>\<open>TypeError\<close>, which
  has no code and is not recoverable, and no challenge request follows the failure: at
  startup \<^verbatim>\<open>onModuleInit\<close> only logs it; during failover \<^verbatim>\<open>networkResilience\<close> and
  \<^verbatim>\<open>connectToNode\<close> reject with it, the directory query being the last effect.
\<close>

theorem empty_directory_selection_fails:
  assumes "getNodes ev (now st) = Inr []"
  shows "generateBaseUrl ev st = (Inl (Thrown undefined_membership), emit GetNodes st) \<and>
         \<not> recoverable (Thrown undefined_membership) \<and>
         (\<not> truthy (baseUrl opts) \<longrightarrow>
            onModuleInit n opts ev st =
              Some (Inr (), emit (LoggerError (''failed to connect to node: '' @ template (baseURL st)
                                               @ '': undefined'')) (emit GetNodes st))) \<and>
         (recoverable error \<longrightarrow>
            networkResilience error ev st = (Inl (Thrown undefined_membership), emit GetNodes st)) \<and>
         (\<not> truthy (baseUrl opts) \<and> recoverable error \<and>
          connectToNode_try opts ev st0 = (Inl error, st) \<longrightarrow>
            connectToNode (Suc n) opts ev st0 = Some (Inl (Thrown undefined_membership), emit GetNodes st))"
proof -
  note sel = generateBaseUrl_empty [OF assms]
  have c: "code undefined_membership = None"
    by (simp add: undefined_membership_def cannot_read_def TypeError_def)
  have nr: "\<not> recoverable (Thrown undefined_membership)"
    by (simp add: recoverable_def c)
  have init: "\<not> truthy (baseUrl opts) \<Longrightarrow>
      onModuleInit n opts ev st =
        Some (Inr (), emit (LoggerError (''failed to connect to node: '' @ template (baseURL st)
                                         @ '': undefined'')) (emit GetNodes st))"
    by (simp add: onModuleInit_def onModuleInit_try_def resolveBaseUrl_def sel c template_def
        read_code_def)
  have res: "recoverable error \<Longrightarrow>
      networkResilience error ev st = (Inl (Thrown undefined_membership), emit GetNodes st)"
    by (simp add: networkResilience_recoverable sel)
  have conn: "\<not> truthy (baseUrl opts) \<Longrightarrow> recoverable error \<Longrightarrow>
      connectToNode_try opts ev st0 = (Inl error, st) \<Longrightarrow>
      connectToNode (Suc n) opts ev st0 = Some (Inl (Thrown undefined_membership), emit GetNodes st)"
    by (simp add: res)
  show ?thesis using sel nr init res conn by blast
qed

theorem empty_directory_selection_fails_witness:
  "generateBaseUrl empty_directory initial = (Inl (Thrown undefined_membership), emit GetNodes initial) \<and>
   onModuleInit 1 dynamic_options empty_directory initial =
     Some (Inr (), initial\<lparr>trace :=
       [GetNodes, LoggerError ''failed to connect to node: undefined: undefined'']\<rparr>) \<and>
   networkResilience (Thrown (axios_error ''ECONNREFUSED'')) empty_directory
       (emit (HttpGet (Some ''http://node-a'') ''/auth/web3/request'') (initial\<lparr>baseURL := Some ''http://node-a''\<rparr>))
     = (Inl (Thrown undefined_membership),
        initial\<lparr>baseURL := Some ''http://node-a'',
                trace := [HttpGet (Some ''http://node-a'') ''/auth/web3/request'', GetNodes]\<rparr>) \<and>
   connectToNode 1 dynamic_options empty_directory (initial\<lparr>baseURL := Some ''http://node-a''\<rparr>)
     = Some (Inl (Thrown undefined_membership),
        initial\<lparr>baseURL := Some ''http://node-a'',
                trace := [HttpGet (Some ''http://node-a'') ''/auth/web3/request'', GetNodes]\<rparr>)"
  using empty_directory_selection_fails
    [of empty_directory
        "emit (HttpGet (Some ''http://node-a'') ''/auth/web3/request'') (initial\<lparr>baseURL := Some ''http://node-a''\<rparr>)"
        dynamic_options 0 "Thrown (axios_error ''ECONNREFUSED'')" "initial\<lparr>baseURL := Some ''http://node-a''\<rparr>"]
    empty_directory_selection_fails [of empty_directory initial dynamic_options 1]
  by (simp add: empty_directory_def two_nodes_def dynamic_options_def truthy_def recoverable_def
      axios_error_def template_def initial_def emit_def now_def connectToNode_try_def)

subsection \<open>Failover\<close>

lemma networkResilience_fatal:
  assumes "\<not> recoverable (Thrown e)"
  shows "networkResilience (Thrown e) ev st = (Inl (Thrown e), st)"
  using assms by (simp add: networkResilience_def read_code_def includes_code_recoverable)

lemma networkResilience_unreadable:
  "networkResilience ThrowUndefined ev st = (Inl (Thrown (cannot_read ''undefined'' ''code'')), st)"
  "networkResilience ThrowNull ev st = (Inl (Thrown (cannot_read ''null'' ''code'')), st)"
  by (simp_all add: networkResilience_def read_code_def)

lemma networkResilience_frame:
  assumes "networkResilience error ev st = (r, st')"
  shows "(trace st' = trace st \<or> trace st' = trace st @ [GetNodes]) \<and>
         u_login st' = u_login st \<and> intervals st' = intervals st"
  using assms
  by (auto simp: networkResilience_def split: if_splits prod.splits sum.splits
      dest!: generateBaseUrl_frame)

lemma connectToNode_fixed:
  assumes "truthy (baseUrl opts)"
  shows "connectToNode (Suc n) opts ev st = Some (connectToNode_try opts ev st)"
  using assms by (auto split: prod.splits sum.splits)

lemma connectToNode_try_no_selection:
  assumes "connectToNode_try opts ev st = (r, st')"
  shows "count_list (trace st') GetNodes = count_list (trace st) GetNodes \<and>
         u_operator st' = u_operator st \<and> baseURL st' = baseURL st"
proof (cases r)
  case (Inl e)
  with assms obtain evs where
    "trace st' = trace st @ HttpGet (baseURL st) ''/auth/web3/request'' # evs"
    "\<forall>x \<in> set evs. (\<exists>b. x = Sign b) \<or> (\<exists>b p v. x = HttpPost b p v)"
    "u_operator st' = u_operator st" "baseURL st' = baseURL st"
    using connectToNode_try_Inl by blast
  moreover from this(2) have "count_list evs GetNodes = 0"
    by (simp add: count_list_0_iff) blast
  ultimately show ?thesis by simp
next
  case (Inr c)
  with assms show ?thesis
    using connectToNode_try_Inr [of opts ev st c st'] by auto
qed

text \<open>
  Claim C3: with a configured (truthy) \<^verbatim>\<open>baseUrl\<close>, whatever error the handshake raises,
  with whatever code, \<^verbatim>\<open>connectToNode\<close> rejects with that same error at once, and node
  selection is not invoked: no directory query is added to the effects, and the selected
  operator and the base URL stay as they were.
\<close>

theorem fixed_baseUrl_every_error_is_fatal:
  assumes "truthy (baseUrl opts)"
    and "connectToNode_try opts ev st = (Inl error, st1)"
  shows "connectToNode (Suc n) opts ev st = Some (Inl error, st1) \<and>
         count_list (trace st1) GetNodes = count_list (trace st) GetNodes \<and>
         u_operator st1 = u_operator st \<and> baseURL st1 = baseURL st"
  using connectToNode_fixed [OF assms(1), of n ev st] connectToNode_try_no_selection [OF assms(2)]
    assms(2) by simp

theorem fixed_baseUrl_every_error_is_fatal_witness:
  "truthy (baseUrl fixed_options) \<and>
   connectToNode 1 fixed_options empty_directory (initial\<lparr>baseURL := Some ''http://pinned''\<rparr>) =
     Some (Inl (Thrown (axios_error ''ECONNREFUSED'')),
           initial\<lparr>baseURL := Some ''http://pinned'',
                   trace := [HttpGet (Some ''http://pinned'') ''/auth/web3/request'']\<rparr>)"
  using fixed_baseUrl_every_error_is_fatal
    [of fixed_options empty_directory "initial\<lparr>baseURL := Some ''http://pinned''\<rparr>"
        "Thrown (axios_error ''ECONNREFUSED'')"
        "initial\<lparr>baseURL := Some ''http://pinned'',
                 trace := [HttpGet (Some ''http://pinned'') ''/auth/web3/request'']\<rparr>" 0]
  by (simp add: fixed_options_def dynamic_options_def truthy_def empty_directory_def two_nodes_def
      connectToNode_try_def initial_def emit_def now_def)

lemma connectToNode_first_effect:
  assumes "connectToNode n opts ev st = Some (r, st')"
  shows "\<exists>evs. trace st' = trace st @ HttpGet (baseURL st) ''/auth/web3/request'' # evs"
  using assms
proof (induction n arbitrary: st r st')
  case 0
  then show ?case by simp
next
  case (Suc n)
  obtain r1 st1 where t: "connectToNode_try opts ev st = (r1, st1)"
    by (cases "connectToNode_try opts ev st")
  have ext1: "\<exists>evs. trace st1 = trace st @ HttpGet (baseURL st) ''/auth/web3/request'' # evs"
  proof (cases r1)
    case (Inl e)
    with t show ?thesis using connectToNode_try_Inl by blast
  next
    case (Inr c)
    with t show ?thesis using connectToNode_try_Inr [of opts ev st c st1] by auto
  qed
  show ?case
  proof (cases r1)
    case (Inr c)
    with Suc.prems t ext1 show ?thesis by auto
  next
    case (Inl e)
    show ?thesis
    proof (cases "truthy (baseUrl opts)")
      case True
      with Suc.prems t Inl ext1 show ?thesis by auto
    next
      case False
      obtain r2 st2 where nr: "networkResilience e ev st1 = (r2, st2)"
        by (cases "networkResilience e ev st1")
      from networkResilience_frame [OF nr]
      have ext2: "\<exists>evs. trace st2 = trace st1 @ evs" by auto
      show ?thesis
      proof (cases r2)
        case (Inl e2)
        with Suc.prems t \<open>r1 = Inl e\<close> False nr have "st' = st2" by simp
        with ext1 ext2 show ?thesis by auto
      next
        case (Inr u)
        with Suc.prems t \<open>r1 = Inl e\<close> False nr
        have "connectToNode n opts ev st2 = Some (r, st')" by simp
        from Suc.IH [OF this] obtain evs3 where "trace st' = trace st2 @ HttpGet (baseURL st2) ''/auth/web3/request'' # evs3"
          by blast
        with ext1 ext2 show ?thesis by auto
      qed
    qed
  qed
qed

text \<open>
  Claim C4, as stated: every error whose code is not one of the three is rethrown
  unchanged. The caught value need not be an object: of \<^verbatim>\<open>null\<close> (and of
  \<^verbatim>\<open>undefined\<close>) the read of \<^verbatim>\<open>error.code\<close> at line 180 throws, and
  \<^verbatim>\<open>networkResilience\<close>, and with it \<^verbatim>\<open>connectToNode\<close>, rejects with that \<^verbatim>\<open>TypeError\<close>,
  not with the value it caught.
\<close>

theorem networkResilience_null_is_not_rethrown:
  "networkResilience ThrowNull two_nodes initial =
     (Inl (Thrown (cannot_read ''null'' ''code'')), initial) \<and>
   Thrown (cannot_read ''null'' ''code'') \<noteq> ThrowNull \<and>
   connectToNode_try dynamic_options rejects_with_null at_node_b =
     (Inl ThrowNull, emit (HttpGet (Some ''http://node-b'') ''/auth/web3/request'') at_node_b) \<and>
   connectToNode 1 dynamic_options rejects_with_null at_node_b =
     Some (Inl (Thrown (cannot_read ''null'' ''code'')),
           emit (HttpGet (Some ''http://node-b'') ''/auth/web3/request'') at_node_b)"
  by (simp add: run_defs world_defs rejects_with_null_def at_node_b_def read_code_def)

text \<open>
  Claim C4, amended: for a caught value that is an object, \<^verbatim>\<open>networkResilience\<close> treats
  it as recoverable exactly when its code is one of \<^verbatim>\<open>ECONNREFUSED\<close>, \<^verbatim>\<open>ECONNABORTED\<close>,
  \<^verbatim>\<open>ECONNRESET\<close>. Any other object is rethrown unchanged, with no effect. For a
  recoverable one it selects a node and, the selection having returned, sets the
  transport's base URL to the selected operator's URL; the caller then runs
  \<^verbatim>\<open>connectToNode\<close> again, and that run, whenever one more attempt is allowed, performs
  the \<^verbatim>\<open>try\<close> block in the new state: its first effect is the challenge request to the
  new base URL, and its outcome is the outcome of the handshake (the credential, the
  error failover rethrows, or one more failover). A caught \<^verbatim>\<open>undefined\<close> or \<^verbatim>\<open>null\<close> is
  answered with the \<^verbatim>\<open>TypeError\<close> of the read.
\<close>

theorem networkResilience_on_error_objects:
  "(recoverable (Thrown e) \<longleftrightarrow>
      code e \<in> {Some ''ECONNREFUSED'', Some ''ECONNABORTED'', Some ''ECONNRESET''}) \<and>
   (\<not> recoverable (Thrown e) \<longrightarrow> networkResilience (Thrown e) ev st = (Inl (Thrown e), st)) \<and>
   (recoverable (Thrown e) \<longrightarrow> networkResilience (Thrown e) ev st \<noteq> (Inl (Thrown e), st)) \<and>
   (recoverable (Thrown e) \<and> generateBaseUrl ev st = (Inr u, st1) \<longrightarrow>
      networkResilience (Thrown e) ev st = (Inr (), st1\<lparr>baseURL := Some u\<rparr>) \<and>
      u_operator st1 \<noteq> None \<and> u = url (the (u_operator st1)) \<and>
      (\<not> truthy (baseUrl opts) \<and> connectToNode_try opts ev st0 = (Inl (Thrown e), st) \<longrightarrow>
         connectToNode (Suc n) opts ev st0 = connectToNode n opts ev (st1\<lparr>baseURL := Some u\<rparr>) \<and>
         (\<exists>r s evs.
            connectToNode_try opts ev (st1\<lparr>baseURL := Some u\<rparr>) = (r, s) \<and>
            trace s = trace st @ GetNodes # HttpGet (Some u) ''/auth/web3/request'' # evs \<and>
            connectToNode (Suc (Suc n)) opts ev st0 =
              (case r of
                 Inr credentials \<Rightarrow> Some (Inr credentials, s)
               | Inl x \<Rightarrow>
                   (case networkResilience x ev s of
                      (Inl y, s1) \<Rightarrow> Some (Inl y, s1)
                    | (Inr _, s1) \<Rightarrow> connectToNode n opts ev s1))))) \<and>
   networkResilience ThrowUndefined ev st =
     (Inl (Thrown (cannot_read ''undefined'' ''code'')), st) \<and>
   networkResilience ThrowNull ev st = (Inl (Thrown (cannot_read ''null'' ''code'')), st)"
proof -
  have a: "recoverable (Thrown e) \<longleftrightarrow>
      code e \<in> {Some ''ECONNREFUSED'', Some ''ECONNABORTED'', Some ''ECONNRESET''}"
    by (auto simp: recoverable_def)
  have b: "\<not> recoverable (Thrown e) \<Longrightarrow> networkResilience (Thrown e) ev st = (Inl (Thrown e), st)"
    by (rule networkResilience_fatal)
  have c: "recoverable (Thrown e) \<Longrightarrow> networkResilience (Thrown e) ev st \<noteq> (Inl (Thrown e), st)"
  proof
    assume r: "recoverable (Thrown e)"
      and eq: "networkResilience (Thrown e) ev st = (Inl (Thrown e), st)"
    obtain r1 s1 where g: "generateBaseUrl ev st = (r1, s1)" by (cases "generateBaseUrl ev st")
    from generateBaseUrl_frame [OF g] have t: "trace s1 = trace st @ [GetNodes]" by simp
    from eq g have "trace st = trace s1"
      unfolding networkResilience_recoverable [OF r] by (auto split: sum.splits)
    with t show False by simp
  qed
  have d: "networkResilience (Thrown e) ev st = (Inr (), st1\<lparr>baseURL := Some u\<rparr>)"
    if "recoverable (Thrown e)" "generateBaseUrl ev st = (Inr u, st1)"
    using that by (simp add: networkResilience_recoverable)
  have f: "u_operator st1 \<noteq> None \<and> u = url (the (u_operator st1))"
    if "generateBaseUrl ev st = (Inr u, st1)"
    using that by (auto simp: generateBaseUrl_def Let_def split: sum.splits option.splits)
  have g: "connectToNode (Suc k) opts ev st0 = connectToNode k opts ev (st1\<lparr>baseURL := Some u\<rparr>)"
    if "recoverable (Thrown e)" "generateBaseUrl ev st = (Inr u, st1)" "\<not> truthy (baseUrl opts)"
      "connectToNode_try opts ev st0 = (Inl (Thrown e), st)" for k
    using that d by simp
  have h: "\<exists>r s evs.
            connectToNode_try opts ev (st1\<lparr>baseURL := Some u\<rparr>) = (r, s) \<and>
            trace s = trace st @ GetNodes # HttpGet (Some u) ''/auth/web3/request'' # evs \<and>
            connectToNode (Suc (Suc n)) opts ev st0 =
              (case r of
                 Inr credentials \<Rightarrow> Some (Inr credentials, s)
               | Inl x \<Rightarrow>
                   (case networkResilience x ev s of
                      (Inl y, s1) \<Rightarrow> Some (Inl y, s1)
                    | (Inr _, s1) \<Rightarrow> connectToNode n opts ev s1))"
    if r: "recoverable (Thrown e)" and sel: "generateBaseUrl ev st = (Inr u, st1)"
      and dyn: "\<not> truthy (baseUrl opts)"
      and t0: "connectToNode_try opts ev st0 = (Inl (Thrown e), st)"
  proof -
    let ?s2 = "st1\<lparr>baseURL := Some u\<rparr>"
    obtain r2 s2 where t: "connectToNode_try opts ev ?s2 = (r2, s2)"
      by (cases "connectToNode_try opts ev ?s2")
    from generateBaseUrl_frame [OF sel] have tr: "trace ?s2 = trace st @ [GetNodes]" by simp
    have first: "\<exists>evs. trace s2 = trace ?s2 @ HttpGet (baseURL ?s2) ''/auth/web3/request'' # evs"
    proof (cases r2)
      case (Inl x)
      with t show ?thesis using connectToNode_try_Inl by blast
    next
      case (Inr c)
      with t show ?thesis using connectToNode_try_Inr [of opts ev ?s2 c s2] by auto
    qed
    then obtain evs where
      "trace s2 = trace st @ GetNodes # HttpGet (Some u) ''/auth/web3/request'' # evs"
      using tr by auto
    moreover have "connectToNode (Suc (Suc n)) opts ev st0 =
              (case r2 of
                 Inr credentials \<Rightarrow> Some (Inr credentials, s2)
               | Inl x \<Rightarrow>
                   (case networkResilience x ev s2 of
                      (Inl y, s1) \<Rightarrow> Some (Inl y, s1)
                    | (Inr _, s1) \<Rightarrow> connectToNode n opts ev s1))"
      unfolding g [OF r sel dyn t0] using t dyn by (simp split: sum.splits)
    ultimately show ?thesis using t by blast
  qed
  show ?thesis using a b c d f g h networkResilience_unreadable by blast
qed

theorem networkResilience_on_error_objects_witness:
  "recoverable (Thrown (axios_error ''ECONNREFUSED'')) \<and>
   \<not> recoverable (Thrown (axios_error ''ERR_BAD_REQUEST'')) \<and>
   networkResilience (Thrown (axios_error ''ERR_BAD_REQUEST'')) two_nodes initial =
     (Inl (Thrown (axios_error ''ERR_BAD_REQUEST'')), initial) \<and>
   connectToNode_try dynamic_options refuses_once at_node_b =
     (Inl (Thrown (axios_error ''ECONNREFUSED'')),
      emit (HttpGet (Some ''http://node-b'') ''/auth/web3/request'') at_node_b) \<and>
   networkResilience (Thrown (axios_error ''ECONNREFUSED'')) refuses_once
       (emit (HttpGet (Some ''http://node-b'') ''/auth/web3/request'') at_node_b) =
     (Inr (), at_node_b\<lparr>baseURL := Some ''http://node-a'',
                         u_operator := Some (membership_operator node_a),
                         trace := [HttpGet (Some ''http://node-b'') ''/auth/web3/request'', GetNodes]\<rparr>) \<and>
   connectToNode 2 dynamic_options refuses_once at_node_b =
     Some (Inr (token ''T1''), retried_handshake) \<and>
   baseURL retried_handshake = Some ''http://node-a'' \<and>
   trace retried_handshake =
     [HttpGet (Some ''http://node-b'') ''/auth/web3/request'',
      GetNodes,
      HttpGet (Some ''http://node-a'') ''/auth/web3/request'',
      Sign challenge_bytes,
      HttpPost (Some ''http://node-a'') ''/auth/web3/login'' challenge_envelope,
      SetInterval 5]"
proof -
  let ?e = "axios_error ''ECONNREFUSED''"
  let ?st = "emit (HttpGet (Some ''http://node-b'') ''/auth/web3/request'') at_node_b"
  let ?st1 = "at_node_b\<lparr>u_operator := Some (membership_operator node_a),
                  trace := [HttpGet (Some ''http://node-b'') ''/auth/web3/request'', GetNodes]\<rparr>"
  have r: "recoverable (Thrown ?e)" and nr: "\<not> recoverable (Thrown (axios_error ''ERR_BAD_REQUEST''))"
    by (simp_all add: recoverable_def axios_error_def)
  have sel: "generateBaseUrl refuses_once ?st = (Inr ''http://node-a'', ?st1)"
    by (simp add: run_defs world_defs at_node_b_def)
  have t0: "connectToNode_try dynamic_options refuses_once at_node_b = (Inl (Thrown ?e), ?st)"
    by (simp add: run_defs world_defs at_node_b_def)
  have dyn: "\<not> truthy (baseUrl dynamic_options)"
    by (simp add: truthy_def dynamic_options_def)
  note inst = networkResilience_on_error_objects
    [where e = ?e and ev = refuses_once and st = ?st and u = "''http://node-a''" and ?st1.0 = ?st1
       and opts = dynamic_options and ?st0.0 = at_node_b and n = 0]
  from inst r sel have res: "networkResilience (Thrown ?e) refuses_once ?st =
      (Inr (), ?st1\<lparr>baseURL := Some ''http://node-a''\<rparr>)"
    by blast
  from inst r sel dyn t0 obtain r2 s2 evs where
    retry: "connectToNode_try dynamic_options refuses_once (?st1\<lparr>baseURL := Some ''http://node-a''\<rparr>) = (r2, s2)"
      "trace s2 = trace ?st @ GetNodes # HttpGet (Some ''http://node-a'') ''/auth/web3/request'' # evs"
      "connectToNode (Suc (Suc 0)) dynamic_options refuses_once at_node_b =
              (case r2 of
                 Inr credentials \<Rightarrow> Some (Inr credentials, s2)
               | Inl x \<Rightarrow>
                   (case networkResilience x refuses_once s2 of
                      (Inl y, s1) \<Rightarrow> Some (Inl y, s1)
                    | (Inr _, s1) \<Rightarrow> connectToNode 0 dynamic_options refuses_once s1))"
    by blast
  have run: "connectToNode_try dynamic_options refuses_once (?st1\<lparr>baseURL := Some ''http://node-a''\<rparr>) =
      (Inr (token ''T1''),
       at_node_b\<lparr>baseURL := Some ''http://node-a'',
                u_operator := Some (membership_operator node_a),
                intervals := [5],
                trace := [HttpGet (Some ''http://node-b'') ''/auth/web3/request'',
                          GetNodes,
                          HttpGet (Some ''http://node-a'') ''/auth/web3/request'',
                          Sign challenge_bytes,
                          HttpPost (Some ''http://node-a'') ''/auth/web3/login'' challenge_envelope,
                          SetInterval 5]\<rparr>)"
    by (simp add: run_defs world_defs at_node_b_def challenge_bytes_def challenge_envelope_def
        challenge_payload_def stringify_payload_def json_member_def QuoteJSONString_def
        quote_char_def)
  from retry(1) run have rs: "r2 = Inr (token ''T1'')"
    "s2 = at_node_b\<lparr>baseURL := Some ''http://node-a'',
                u_operator := Some (membership_operator node_a),
                intervals := [5],
                trace := [HttpGet (Some ''http://node-b'') ''/auth/web3/request'',
                          GetNodes,
                          HttpGet (Some ''http://node-a'') ''/auth/web3/request'',
                          Sign challenge_bytes,
                          HttpPost (Some ''http://node-a'') ''/auth/web3/login'' challenge_envelope,
                          SetInterval 5]\<rparr>"
    by simp_all
  have two: "connectToNode 2 dynamic_options refuses_once at_node_b =
      Some (Inr (token ''T1''),
       at_node_b\<lparr>baseURL := Some ''http://node-a'',
                u_operator := Some (membership_operator node_a),
                intervals := [5],
                trace := [HttpGet (Some ''http://node-b'') ''/auth/web3/request'',
                          GetNodes,
                          HttpGet (Some ''http://node-a'') ''/auth/web3/request'',
                          Sign challenge_bytes,
                          HttpPost (Some ''http://node-a'') ''/auth/web3/login'' challenge_envelope,
                          SetInterval 5]\<rparr>)"
    unfolding numeral_2_eq_2 retry(3) rs(1) by (simp only: sum.case rs(2))
  then have rh: "retried_handshake =
       at_node_b\<lparr>baseURL := Some ''http://node-a'',
                u_operator := Some (membership_operator node_a),
                intervals := [5],
                trace := [HttpGet (Some ''http://node-b'') ''/auth/web3/request'',
                          GetNodes,
                          HttpGet (Some ''http://node-a'') ''/auth/web3/request'',
                          Sign challenge_bytes,
                          HttpPost (Some ''http://node-a'') ''/auth/web3/login'' challenge_envelope,
                          SetInterval 5]\<rparr>"
    by (simp add: retried_handshake_def)
  have fatal: "networkResilience (Thrown (axios_error ''ERR_BAD_REQUEST'')) two_nodes initial =
     (Inl (Thrown (axios_error ''ERR_BAD_REQUEST'')), initial)"
    using networkResilience_on_error_objects
      [where e = "axios_error ''ERR_BAD_REQUEST''" and ev = two_nodes and st = initial] nr
    by blast
  from res have res': "networkResilience (Thrown ?e) refuses_once ?st =
     (Inr (), at_node_b\<lparr>baseURL := Some ''http://node-a'',
                         u_operator := Some (membership_operator node_a),
                         trace := [HttpGet (Some ''http://node-b'') ''/auth/web3/request'', GetNodes]\<rparr>)"
    by (simp add: at_node_b_def initial_def)
  show ?thesis
    using r nr fatal t0 res' two unfolding rh by (simp add: at_node_b_def initial_def)
qed

subsection \<open>The shape of a handshake with failover\<close>

lemma connectToNode_try_Inl_quiet:
  assumes "connectToNode_try opts ev st = (Inl e, st')"
  shows "\<exists>evs. trace st' = trace st @ evs \<and> (\<forall>x \<in> set evs. \<not> is_timer x) \<and>
           intervals st' = intervals st \<and> u_login st' = u_login st"
proof -
  from connectToNode_try_Inl [OF assms] obtain evs where
    e: "trace st' = trace st @ HttpGet (baseURL st) ''/auth/web3/request'' # evs"
       "\<forall>x \<in> set evs. (\<exists>b. x = Sign b) \<or> (\<exists>b p v. x = HttpPost b p v)"
       "intervals st' = intervals st" "u_login st' = u_login st"
    by blast
  from e(2) have "\<forall>x \<in> set (HttpGet (baseURL st) ''/auth/web3/request'' # evs). \<not> is_timer x"
    by auto
  with e show ?thesis by blast
qed

lemma networkResilience_quiet:
  assumes "networkResilience error ev st = (r, st')"
  shows "\<exists>evs. trace st' = trace st @ evs \<and> (\<forall>x \<in> set evs. \<not> is_timer x) \<and>
           intervals st' = intervals st \<and> u_login st' = u_login st"
proof -
  from networkResilience_frame [OF assms]
  have d: "trace st' = trace st @ [] \<or> trace st' = trace st @ [GetNodes]"
    and k: "intervals st' = intervals st" "u_login st' = u_login st" by auto
  from d show ?thesis
  proof
    assume "trace st' = trace st @ []"
    with k have "trace st' = trace st @ [] \<and> (\<forall>x \<in> set []. \<not> is_timer x) \<and>
           intervals st' = intervals st \<and> u_login st' = u_login st" by simp
    then show ?thesis by blast
  next
    assume "trace st' = trace st @ [GetNodes]"
    with k have "trace st' = trace st @ [GetNodes] \<and> (\<forall>x \<in> set [GetNodes]. \<not> is_timer x) \<and>
           intervals st' = intervals st \<and> u_login st' = u_login st" by simp
    then show ?thesis by blast
  qed
qed

lemma connectToNode_shape:
  assumes "connectToNode n opts ev st = Some (r, st')"
  shows "\<exists>st0 evs. trace st0 = trace st @ evs \<and> (\<forall>x \<in> set evs. \<not> is_timer x) \<and>
           intervals st0 = intervals st \<and> u_login st0 = u_login st \<and>
           (case r of Inl e \<Rightarrow> st' = st0
                    | Inr c \<Rightarrow> connectToNode_try opts ev st0 = (Inr c, st'))"
  using assms
proof (induction n arbitrary: st)
  case 0
  then show ?case by simp
next
  case (Suc n)
  obtain r1 st1 where t: "connectToNode_try opts ev st = (r1, st1)"
    by (cases "connectToNode_try opts ev st")
  show ?case
  proof (cases r1)
    case (Inr c)
    with Suc.prems t have "r = Inr c" "st' = st1" by auto
    with t Inr have "trace st = trace st @ [] \<and> (\<forall>x \<in> set []. \<not> is_timer x) \<and>
           intervals st = intervals st \<and> u_login st = u_login st \<and>
           (case r of Inl e \<Rightarrow> st' = st
                    | Inr c \<Rightarrow> connectToNode_try opts ev st = (Inr c, st'))" by simp
    then show ?thesis by blast
  next
    case (Inl e)
    from connectToNode_try_Inl_quiet [OF t [unfolded Inl]]
    obtain evs1 where f1: "trace st1 = trace st @ evs1" "\<forall>x \<in> set evs1. \<not> is_timer x"
      "intervals st1 = intervals st" "u_login st1 = u_login st"
      by blast
    show ?thesis
    proof (cases "truthy (baseUrl opts)")
      case True
      with Suc.prems t Inl have "r = Inl e" "st' = st1" by auto
      with f1 show ?thesis by auto
    next
      case False
      obtain r2 st2 where nr: "networkResilience e ev st1 = (r2, st2)"
        by (cases "networkResilience e ev st1")
      from networkResilience_quiet [OF nr] obtain evs2 where
        f2: "trace st2 = trace st1 @ evs2" "\<forall>x \<in> set evs2. \<not> is_timer x"
          "intervals st2 = intervals st1" "u_login st2 = u_login st1"
        by blast
      show ?thesis
      proof (cases r2)
        case (Inl e2)
        with Suc.prems t \<open>r1 = Inl e\<close> False nr have "r = Inl e2" "st' = st2" by auto
        with f1 f2 have "trace st2 = trace st @ (evs1 @ evs2) \<and> (\<forall>x \<in> set (evs1 @ evs2). \<not> is_timer x) \<and>
           intervals st2 = intervals st \<and> u_login st2 = u_login st \<and>
           (case r of Inl e \<Rightarrow> st' = st2
                    | Inr c \<Rightarrow> connectToNode_try opts ev st2 = (Inr c, st'))" by auto
        then show ?thesis by blast
      next
        case (Inr u)
        with Suc.prems t \<open>r1 = Inl e\<close> False nr
        have "connectToNode n opts ev st2 = Some (r, st')" by simp
        from Suc.IH [OF this] obtain st0 evs3 where
          f3: "trace st0 = trace st2 @ evs3" "\<forall>x \<in> set evs3. \<not> is_timer x"
            "intervals st0 = intervals st2" "u_login st0 = u_login st2"
            "(case r of Inl e \<Rightarrow> st' = st0 | Inr c \<Rightarrow> connectToNode_try opts ev st0 = (Inr c, st'))"
          by blast
        with f1 f2 have "trace st0 = trace st @ (evs1 @ evs2 @ evs3) \<and>
           (\<forall>x \<in> set (evs1 @ evs2 @ evs3). \<not> is_timer x) \<and>
           intervals st0 = intervals st \<and> u_login st0 = u_login st \<and>
           (case r of Inl e \<Rightarrow> st' = st0
                    | Inr c \<Rightarrow> connectToNode_try opts ev st0 = (Inr c, st'))" by auto
        then show ?thesis by blast
      qed
    qed
  qed
qed

lemma connectToNode_keeps_login:
  assumes "connectToNode n opts ev st = Some (r, st')"
  shows "u_login st' = u_login st"
proof -
  from connectToNode_shape [OF assms] obtain st0 where
    s: "u_login st0 = u_login st"
       "(case r of Inl e \<Rightarrow> st' = st0 | Inr c \<Rightarrow> connectToNode_try opts ev st0 = (Inr c, st'))"
    by blast
  show ?thesis
  proof (cases r)
    case (Inl e)
    with s show ?thesis by simp
  next
    case (Inr c)
    with s have "connectToNode_try opts ev st0 = (Inr c, st')" by simp
    from connectToNode_try_Inr [OF this] s(1) show ?thesis by auto
  qed
qed

text \<open>
  The bound on the attempts is only a bound: once the promise settles within \<open>n\<close>
  attempts, a larger bound gives the same outcome.
\<close>

lemma connectToNode_more_attempts:
  assumes "connectToNode n opts ev st = Some out"
  shows "connectToNode (n + k) opts ev st = Some out"
  using assms
proof (induction n arbitrary: st)
  case 0
  then show ?case by simp
next
  case (Suc n)
  obtain r1 st1 where t: "connectToNode_try opts ev st = (r1, st1)"
    by (cases "connectToNode_try opts ev st")
  show ?case
  proof (cases r1)
    case (Inr c)
    with Suc.prems t show ?thesis by auto
  next
    case (Inl e)
    show ?thesis
    proof (cases "truthy (baseUrl opts)")
      case True
      with Suc.prems t Inl show ?thesis by auto
    next
      case False
      obtain r2 st2 where nr: "networkResilience e ev st1 = (r2, st2)"
        by (cases "networkResilience e ev st1")
      show ?thesis
      proof (cases r2)
        case (Inl e2)
        with Suc.prems t \<open>r1 = Inl e\<close> False nr show ?thesis by auto
      next
        case (Inr u)
        with Suc.prems t \<open>r1 = Inl e\<close> False nr
        have "connectToNode n opts ev st2 = Some out" by simp
        from Suc.IH [OF this] t \<open>r1 = Inl e\<close> False nr Inr show ?thesis by simp
      qed
    qed
  qed
qed

subsection \<open>The stored credential\<close>

text \<open>
  Claim C5 says that after a health-check failure and a successful re-run of the
  handshake the \<^verbatim>\<open>login\<close> getter returns the new credential. The callback drops the value
  of \<^verbatim>\<open>connectToNode\<close> (line 224); only \<^verbatim>\<open>onModuleInit\<close> assigns \<^verbatim>\<open>_login\<close>. So no run
  of the health check, whatever its outcome, changes what the getter returns.
\<close>

theorem healthCheck_keeps_stored_login:
  assumes "healthCheck n opts ev interval st = Some (r, st')"
  shows "login st' = login st"
proof (cases "axios_get ev (now st) (baseURL st) ''/auth/profile''")
  case (Inr profile)
  with assms show ?thesis
    by (auto simp: healthCheck_def healthCheck_answer_def healthCheck_request_def login_def)
next
  case (Inl e)
  with assms obtain r1 where
    "connectToNode n opts ev (clearInterval interval (healthCheck_request st)) = Some (r1, st')"
    by (auto simp: healthCheck_def healthCheck_answer_def split: option.splits sum.splits)
  from connectToNode_keeps_login [OF this] show ?thesis
    by (simp add: login_def clearInterval_def healthCheck_request_def)
qed


theorem reauthentication_keeps_old_login:
  "onModuleInit 1 dynamic_options session_lost initial = Some (Inr (), after_startup) \<and>
   login after_startup = Some (token ''T1'') \<and>
   intervals after_startup = [5] \<and>
   connectToNode 1 dynamic_options session_lost
       (clearInterval 5 (healthCheck_request after_startup))
     = Some (Inr (token ''T2''), after_reauthentication) \<and>
   healthCheck 1 dynamic_options session_lost 5 after_startup
     = Some (Inr (), after_reauthentication) \<and>
   login after_reauthentication = Some (token ''T1'') \<and>
   login after_reauthentication \<noteq> Some (token ''T2'')"
proof -
  have s: "onModuleInit 1 dynamic_options session_lost initial = Some (Inr (), after_startup)"
    and l: "login after_startup = Some (token ''T1'')"
    and i: "intervals after_startup = [5]"
    unfolding after_startup_def by (simp_all add: run_defs world_defs)
  have h: "healthCheck 1 dynamic_options session_lost 5 after_startup
             = Some (Inr (), after_reauthentication)"
    and c: "connectToNode 1 dynamic_options session_lost
              (clearInterval 5 (healthCheck_request after_startup))
             = Some (Inr (token ''T2''), after_reauthentication)"
    unfolding after_reauthentication_def after_startup_def
    by (simp_all add: run_defs world_defs)
  from healthCheck_keeps_stored_login [OF h] l
  have "login after_reauthentication = Some (token ''T1'')" by simp
  with s l i h c show ?thesis by (simp add: token_def)
qed

subsection \<open>The successful handshake\<close>

lemma signNodeData_Inr:
  assumes "signNodeData opts ev st payload = (Inr envelope, st')"
  shows "\<exists>key signature.
      PrivateKey_fromString ev (privateKey (operator opts)) = Inr key \<and>
      PrivateKey_sign ev (now st) key (stringify_payload payload) = Inr signature \<and>
      envelope = \<lparr>signedData = \<lparr>signedPayload = payload, userSignature = signature\<rparr>,
                  login_operator =
                    \<lparr>accountId = accountId (operator opts),
                     publicKey = publicKey (operator opts),
                     url = url (operator opts),
                     nft = \<lparr>nft_id = None, serialNumber = None\<rparr>\<rparr>\<rparr> \<and>
      st' = emit (Sign (stringify_payload payload)) st"
  using assms by (auto simp: signNodeData_def Let_def split: sum.splits)

lemma stringify_payload_bytes:
  "stringify_payload \<lparr>serverSignature = sig, originalPayload = pl\<rparr> =
     ''{'' @ join_comma
       ((case sig of None \<Rightarrow> []
         | Some s \<Rightarrow> [[CHR 0x22] @ ''serverSignature'' @ [CHR 0x22] @ '':'' @ JSON_stringify s])
        @ (case pl of None \<Rightarrow> []
           | Some p \<Rightarrow> [[CHR 0x22] @ ''originalPayload'' @ [CHR 0x22] @ '':'' @ JSON_stringify p]))
     @ ''}''"
  by (simp add: stringify_payload_def json_member_def QuoteJSONString_def quote_char_def
      split: option.splits)

lemma connectToNode_try_steps:
  assumes "connectToNode_try opts ev st = (Inr credentials, st')"
  shows "\<exists>data sd sig pl key signature bytes envelope.
      axios_get ev (now st) (baseURL st) ''/auth/web3/request'' = Inr data \<and>
      read_prop (Some data) ''signedData'' = Inr sd \<and>
      read_prop sd ''signature'' = Inr sig \<and>
      read_prop (Some data) ''payload'' = Inr pl \<and>
      bytes = ''{'' @ join_comma
        ((case sig of None \<Rightarrow> []
          | Some s \<Rightarrow> [[CHR 0x22] @ ''serverSignature'' @ [CHR 0x22] @ '':'' @ JSON_stringify s])
         @ (case pl of None \<Rightarrow> []
            | Some p \<Rightarrow> [[CHR 0x22] @ ''originalPayload'' @ [CHR 0x22] @ '':'' @ JSON_stringify p]))
        @ ''}'' \<and>
      PrivateKey_fromString ev (privateKey (operator opts)) = Inr key \<and>
      PrivateKey_sign ev (now st + 1) key bytes = Inr signature \<and>
      envelope = \<lparr>signedData = \<lparr>signedPayload = \<lparr>serverSignature = sig, originalPayload = pl\<rparr>,
                                 userSignature = signature\<rparr>,
                  login_operator =
                    \<lparr>accountId = accountId (operator opts),
                     publicKey = publicKey (operator opts),
                     url = url (operator opts),
                     nft = \<lparr>nft_id = None, serialNumber = None\<rparr>\<rparr>\<rparr> \<and>
      axios_post ev (now st + 2) (baseURL st) ''/auth/web3/login'' envelope = Inr credentials \<and>
      trace st' = trace st @
        [HttpGet (baseURL st) ''/auth/web3/request'',
         Sign bytes,
         HttpPost (baseURL st) ''/auth/web3/login'' envelope,
         SetInterval (now st + 3)] \<and>
      intervals st' = intervals st @ [now st + 3]"
proof -
  from connectToNode_try_Inr [OF assms] obtain data sd sig pl envelope where
    p: "axios_get ev (now st) (baseURL st) ''/auth/web3/request'' = Inr data"
       "read_prop (Some data) ''signedData'' = Inr sd"
       "read_prop sd ''signature'' = Inr sig"
       "read_prop (Some data) ''payload'' = Inr pl"
       "fst (signNodeData opts ev (emit (HttpGet (baseURL st) ''/auth/web3/request'') st)
             \<lparr>serverSignature = sig, originalPayload = pl\<rparr>) = Inr envelope"
       "axios_post ev (now st + 2) (baseURL st) ''/auth/web3/login'' envelope = Inr credentials"
       "trace st' = trace st @
        [HttpGet (baseURL st) ''/auth/web3/request'',
         Sign (stringify_payload \<lparr>serverSignature = sig, originalPayload = pl\<rparr>),
         HttpPost (baseURL st) ''/auth/web3/login'' envelope,
         SetInterval (now st + 3)]"
       "intervals st' = intervals st @ [now st + 3]"
    by blast
  obtain s1 where "signNodeData opts ev (emit (HttpGet (baseURL st) ''/auth/web3/request'') st)
             \<lparr>serverSignature = sig, originalPayload = pl\<rparr> = (Inr envelope, s1)"
    using p(5) by (cases "signNodeData opts ev (emit (HttpGet (baseURL st) ''/auth/web3/request'') st)
             \<lparr>serverSignature = sig, originalPayload = pl\<rparr>") simp
  from signNodeData_Inr [OF this] obtain key signature where
    k: "PrivateKey_fromString ev (privateKey (operator opts)) = Inr key"
       "PrivateKey_sign ev (now st + 1) key
          (stringify_payload \<lparr>serverSignature = sig, originalPayload = pl\<rparr>) = Inr signature"
       "envelope = \<lparr>signedData = \<lparr>signedPayload = \<lparr>serverSignature = sig, originalPayload = pl\<rparr>,
                                 userSignature = signature\<rparr>,
                  login_operator =
                    \<lparr>accountId = accountId (operator opts),
                     publicKey = publicKey (operator opts),
                     url = url (operator opts),
                     nft = \<lparr>nft_id = None, serialNumber = None\<rparr>\<rparr>\<rparr>"
    by auto
  from p(1-4) k p(6-8) show ?thesis
    unfolding stringify_payload_bytes by blast
qed

text \<open>
  Claim C6, as stated: a successful handshake performs exactly GET, payload, signature,
  POST, and resolves. The code has one more step between the POST and the resolution:
  it schedules the recurring health check (lines 218-226). In the world of two nodes the
  handshake from the second node has four effects, the last of them \<^verbatim>\<open>setInterval\<close>, and
  leaves a timer.
\<close>

theorem successful_handshake_schedules_health_check:
  "connectToNode 1 dynamic_options two_nodes at_node_b = Some (Inr (token ''T1''), first_handshake) \<and>
   trace first_handshake =
     [HttpGet (Some ''http://node-b'') ''/auth/web3/request'',
      Sign challenge_bytes,
      HttpPost (Some ''http://node-b'') ''/auth/web3/login'' challenge_envelope,
      SetInterval 3] \<and>
   trace first_handshake \<noteq>
     [HttpGet (Some ''http://node-b'') ''/auth/web3/request'',
      Sign challenge_bytes,
      HttpPost (Some ''http://node-b'') ''/auth/web3/login'' challenge_envelope] \<and>
   intervals at_node_b = [] \<and>
   intervals first_handshake = [3]"
  unfolding first_handshake_def
  by (simp add: run_defs world_defs at_node_b_def challenge_bytes_def challenge_envelope_def
      challenge_payload_def stringify_payload_def json_member_def QuoteJSONString_def
      quote_char_def)

text \<open>
  Claim C6, amended: when \<^verbatim>\<open>connectToNode\<close> resolves, the attempt that succeeded (it
  starts in the state \<open>st0\<close>, after the effects of the attempts and failovers before it,
  none of which touches a timer) did exactly this, in this order: the GET of
  \<^verbatim>\<open>/auth/web3/request\<close> on the base URL; the payload
  \<^verbatim>\<open>{serverSignature, originalPayload}\<close> built from \<^verbatim>\<open>signedData.signature\<close> and
  \<^verbatim>\<open>payload\<close> of the answer; the signature, by the key parsed from the configured
  operator's private key, of the payload's serialization (the two properties in this
  order, one that is \<^verbatim>\<open>undefined\<close> left out); the POST to \<^verbatim>\<open>/auth/web3/login\<close> on the
  same base URL of the envelope made of the payload, that signature and the configured
  operator; the scheduling of the recurring health check. It resolves with the body of
  the login answer.
\<close>

theorem successful_handshake_steps:
  assumes "connectToNode n opts ev st = Some (Inr credentials, st')"
  shows "\<exists>st0 earlier data sd sig pl key signature bytes envelope.
      trace st0 = trace st @ earlier \<and> (\<forall>x \<in> set earlier. \<not> is_timer x) \<and>
      intervals st0 = intervals st \<and>
      axios_get ev (now st0) (baseURL st0) ''/auth/web3/request'' = Inr data \<and>
      read_prop (Some data) ''signedData'' = Inr sd \<and>
      read_prop sd ''signature'' = Inr sig \<and>
      read_prop (Some data) ''payload'' = Inr pl \<and>
      bytes = ''{'' @ join_comma
        ((case sig of None \<Rightarrow> []
          | Some s \<Rightarrow> [[CHR 0x22] @ ''serverSignature'' @ [CHR 0x22] @ '':'' @ JSON_stringify s])
         @ (case pl of None \<Rightarrow> []
            | Some p \<Rightarrow> [[CHR 0x22] @ ''originalPayload'' @ [CHR 0x22] @ '':'' @ JSON_stringify p]))
        @ ''}'' \<and>
      PrivateKey_fromString ev (privateKey (operator opts)) = Inr key \<and>
      PrivateKey_sign ev (now st0 + 1) key bytes = Inr signature \<and>
      envelope = \<lparr>signedData = \<lparr>signedPayload = \<lparr>serverSignature = sig, originalPayload = pl\<rparr>,
                                 userSignature = signature\<rparr>,
                  login_operator =
                    \<lparr>accountId = accountId (operator opts),
                     publicKey = publicKey (operator opts),
                     url = url (operator opts),
                     nft = \<lparr>nft_id = None, serialNumber = None\<rparr>\<rparr>\<rparr> \<and>
      axios_post ev (now st0 + 2) (baseURL st0) ''/auth/web3/login'' envelope = Inr credentials \<and>
      trace st' = trace st0 @
        [HttpGet (baseURL st0) ''/auth/web3/request'',
         Sign bytes,
         HttpPost (baseURL st0) ''/auth/web3/login'' envelope,
         SetInterval (now st0 + 3)] \<and>
      intervals st' = intervals st0 @ [now st0 + 3]"
proof -
  from connectToNode_shape [OF assms] obtain st0 earlier where
    s: "trace st0 = trace st @ earlier" "\<forall>x \<in> set earlier. \<not> is_timer x"
       "intervals st0 = intervals st"
       "connectToNode_try opts ev st0 = (Inr credentials, st')"
    by auto
  from connectToNode_try_steps [OF s(4)] s(1,2,3) show ?thesis by blast
qed

theorem successful_handshake_steps_witness:
  "connectToNode 1 dynamic_options session_lost at_node_b =
     Some (Inr (token ''T1''),
           at_node_b\<lparr>intervals := [3],
                      trace := [HttpGet (Some ''http://node-b'') ''/auth/web3/request'',
                                Sign challenge_bytes,
                                HttpPost (Some ''http://node-b'') ''/auth/web3/login'' challenge_envelope,
                                SetInterval 3]\<rparr>) \<and>
   axios_get session_lost 0 (Some ''http://node-b'') ''/auth/web3/request'' = Inr challenge \<and>
   PrivateKey_fromString session_lost (privateKey (operator dynamic_options)) = Inr ''key'' \<and>
   PrivateKey_sign session_lost 1 ''key'' challenge_bytes = Inr (''key'' @ challenge_bytes) \<and>
   axios_post session_lost 2 (Some ''http://node-b'') ''/auth/web3/login'' challenge_envelope
     = Inr (token ''T1'')"
proof -
  let ?final = "at_node_b\<lparr>intervals := [3],
                      trace := [HttpGet (Some ''http://node-b'') ''/auth/web3/request'',
                                Sign challenge_bytes,
                                HttpPost (Some ''http://node-b'') ''/auth/web3/login'' challenge_envelope,
                                SetInterval 3]\<rparr>"
  have h: "connectToNode 1 dynamic_options session_lost at_node_b = Some (Inr (token ''T1''), ?final)"
    by (simp add: run_defs world_defs at_node_b_def challenge_bytes_def challenge_envelope_def
        challenge_payload_def stringify_payload_def json_member_def QuoteJSONString_def
        quote_char_def)
  from successful_handshake_steps [OF h] obtain st0 earlier data sd sig pl key signature bytes envelope
    where w: "trace st0 = trace at_node_b @ earlier"
      "axios_get session_lost (now st0) (baseURL st0) ''/auth/web3/request'' = Inr data"
      "PrivateKey_fromString session_lost (privateKey (operator dynamic_options)) = Inr key"
      "PrivateKey_sign session_lost (now st0 + 1) key bytes = Inr signature"
      "axios_post session_lost (now st0 + 2) (baseURL st0) ''/auth/web3/login'' envelope
         = Inr (token ''T1'')"
      "trace ?final = trace st0 @
        [HttpGet (baseURL st0) ''/auth/web3/request'',
         Sign bytes,
         HttpPost (baseURL st0) ''/auth/web3/login'' envelope,
         SetInterval (now st0 + 3)]"
    by blast
  from w(1,6) have e: "earlier = []" "trace st0 = []" "baseURL st0 = Some ''http://node-b''"
    "bytes = challenge_bytes" "envelope = challenge_envelope"
    by (simp_all add: at_node_b_def initial_def)
  from e(2) have n: "now st0 = 0" by (simp add: now_def)
  from w(3) have k: "key = ''key''"
    by (simp add: world_defs)
  from w(2,3,4,5) show ?thesis
    unfolding e n k using h
    by (simp add: world_defs)
qed

subsection \<open>The signed bytes\<close>

text \<open>
  Claim C7: the bytes \<^verbatim>\<open>signNodeData\<close> hands to the signature are the serialization of the
  payload and of nothing else, so two runs on the same payload, in whatever state and
  world, sign identical bytes; with both fields present the serialization is
  \<^verbatim>\<open>{"serverSignature":...,"originalPayload":...}\<close>, in this order; and the envelope
  returned carries the payload unchanged and the configured operator's account id,
  public key and URL.
\<close>

lemma quoted_serverSignature:
  "QuoteJSONString ''serverSignature'' = [CHR 0x22] @ ''serverSignature'' @ [CHR 0x22]"
  by (simp add: QuoteJSONString_def quote_char_def)

lemma quoted_originalPayload:
  "QuoteJSONString ''originalPayload'' = [CHR 0x22] @ ''originalPayload'' @ [CHR 0x22]"
  by (simp add: QuoteJSONString_def quote_char_def)

theorem signNodeData_serialization:
  "(signNodeData opts ev st payload = (Inr envelope, st') \<longrightarrow>
      trace st' = trace st @ [Sign (stringify_payload payload)] \<and>
      signedPayload (signedData envelope) = payload \<and>
      accountId (login_operator envelope) = accountId (operator opts) \<and>
      publicKey (login_operator envelope) = publicKey (operator opts) \<and>
      url (login_operator envelope) = url (operator opts)) \<and>
   (signNodeData opts ev st payload = (Inr envelope, st') \<and>
    signNodeData opts ev2 st2 payload = (Inr envelope2, st2') \<longrightarrow>
      last (trace st') = Sign (stringify_payload payload) \<and>
      last (trace st2') = last (trace st')) \<and>
   stringify_payload \<lparr>serverSignature = Some s, originalPayload = Some p\<rparr> =
     ''{'' @ [CHR 0x22] @ ''serverSignature'' @ [CHR 0x22] @ '':'' @ JSON_stringify s @ '','' @
     [CHR 0x22] @ ''originalPayload'' @ [CHR 0x22] @ '':'' @ JSON_stringify p @ ''}''"
proof -
  have a: "trace st' = trace st @ [Sign (stringify_payload payload)] \<and>
      signedPayload (signedData envelope) = payload \<and>
      accountId (login_operator envelope) = accountId (operator opts) \<and>
      publicKey (login_operator envelope) = publicKey (operator opts) \<and>
      url (login_operator envelope) = url (operator opts)"
    if "signNodeData opts ev st payload = (Inr envelope, st')" for ev st envelope st'
    using that by (auto simp: signNodeData_def Let_def split: sum.splits)
  have b: "stringify_payload \<lparr>serverSignature = Some s, originalPayload = Some p\<rparr> =
     ''{'' @ [CHR 0x22] @ ''serverSignature'' @ [CHR 0x22] @ '':'' @ JSON_stringify s @ '','' @
     [CHR 0x22] @ ''originalPayload'' @ [CHR 0x22] @ '':'' @ JSON_stringify p @ ''}''"
    by (simp add: stringify_payload_def json_member_def quoted_serverSignature
        quoted_originalPayload)
  show ?thesis using a [of ev st envelope st'] a [of ev2 st2 envelope2 st2'] b by simp
qed

theorem signNodeData_serialization_witness:
  "(\<exists>envelope st' envelope2 st2'.
      signNodeData dynamic_options two_nodes initial challenge_payload = (Inr envelope, st') \<and>
      signNodeData dynamic_options session_lost after_startup challenge_payload = (Inr envelope2, st2') \<and>
      trace st' = [Sign (stringify_payload challenge_payload)] \<and>
      signedPayload (signedData envelope) = challenge_payload \<and>
      accountId (login_operator envelope) = ''0.0.7'' \<and>
      publicKey (login_operator envelope) = ''pub'' \<and>
      url (login_operator envelope) = ''http://me'' \<and>
      last (trace st2') = last (trace st')) \<and>
   stringify_payload challenge_payload =
     ''{'' @ [CHR 0x22] @ ''serverSignature'' @ [CHR 0x22] @ '':'' @ [CHR 0x22] @ ''S'' @ [CHR 0x22] @ '','' @
     [CHR 0x22] @ ''originalPayload'' @ [CHR 0x22] @ '':'' @ [CHR 0x22] @ ''P'' @ [CHR 0x22] @ ''}''"
proof -
  obtain envelope st' where
    r1: "signNodeData dynamic_options two_nodes initial challenge_payload = (Inr envelope, st')"
    by (simp add: signNodeData_def world_defs Let_def)
  obtain envelope2 st2' where
    r2: "signNodeData dynamic_options session_lost after_startup challenge_payload = (Inr envelope2, st2')"
    by (simp add: signNodeData_def world_defs Let_def)
  note inst = signNodeData_serialization
    [of dynamic_options two_nodes initial challenge_payload envelope st'
        session_lost after_startup envelope2 st2' "JStr ''S''" "JStr ''P''"]
  from inst r1 r2 have
    "trace st' = [Sign (stringify_payload challenge_payload)] \<and>
      signedPayload (signedData envelope) = challenge_payload \<and>
      accountId (login_operator envelope) = ''0.0.7'' \<and>
      publicKey (login_operator envelope) = ''pub'' \<and>
      url (login_operator envelope) = ''http://me'' \<and>
      last (trace st2') = last (trace st')"
    by (simp add: initial_def dynamic_options_def)
  moreover from inst have "stringify_payload challenge_payload =
     ''{'' @ [CHR 0x22] @ ''serverSignature'' @ [CHR 0x22] @ '':'' @ [CHR 0x22] @ ''S'' @ [CHR 0x22] @ '','' @
     [CHR 0x22] @ ''originalPayload'' @ [CHR 0x22] @ '':'' @ [CHR 0x22] @ ''P'' @ [CHR 0x22] @ ''}''"
    by (simp add: challenge_payload_def QuoteJSONString_def quote_char_def)
  ultimately show ?thesis using r1 r2 by blast
qed

subsection \<open>Startup\<close>

lemma resolveBaseUrl_frame:
  assumes "resolveBaseUrl opts ev st = (r, st')"
  shows "u_login st' = u_login st \<and> intervals st' = intervals st \<and>
         trace st' = trace st @ (if truthy (baseUrl opts) then [] else [GetNodes])"
  using assms
  by (auto simp: resolveBaseUrl_def split: if_splits prod.splits sum.splits
      dest!: generateBaseUrl_frame)

lemma onModuleInit_caught:
  assumes "onModuleInit_try n opts ev st = Some (Inl (Thrown e), st1)"
  shows "onModuleInit n opts ev st =
           Some (Inr (), emit (LoggerError (''failed to connect to node: '' @ template (baseURL st1)
                                            @ '': '' @ template (code e))) st1)"
  using assms by (simp add: onModuleInit_def read_code_def)

lemma onModuleInit_try_error_keeps_login:
  assumes "onModuleInit_try n opts ev st = Some (Inl error, st1)"
  shows "u_login st1 = u_login st"
proof -
  obtain r0 st0 where r: "resolveBaseUrl opts ev st = (r0, st0)"
    by (cases "resolveBaseUrl opts ev st")
  from resolveBaseUrl_frame [OF r] have l0: "u_login st0 = u_login st" by simp
  show ?thesis
  proof (cases r0)
    case (Inl e)
    with assms r l0 show ?thesis by (simp add: onModuleInit_try_def)
  next
    case (Inr u)
    show ?thesis
    proof (cases "baseURL st0")
      case None
      with assms r Inr l0 show ?thesis by (simp add: onModuleInit_try_def)
    next
      case (Some b)
      show ?thesis
      proof (cases "startsWith b ''http''")
        case False
        with assms r Inr Some show ?thesis by (simp add: onModuleInit_try_def)
      next
        case True
        with assms r Inr Some
        have "connectToNode n opts ev (emit (LoggerVerbose (''trying to connect with '' @ b @ ''...'')) st0)
                = Some (Inl error, st1)"
          by (auto simp: onModuleInit_try_def Let_def split: option.splits sum.splits prod.splits)
        from connectToNode_keeps_login [OF this] l0 show ?thesis by simp
      qed
    qed
  qed
qed

text \<open>
  When every node refuses every request and the directory is not empty, the handshake
  of startup fails over for ever: within no bound does \<^verbatim>\<open>onModuleInit\<close> return.
\<close>

lemma connectToNode_all_refuse:
  assumes "\<not> truthy (baseUrl opts)"
  shows "connectToNode n opts all_refuse st = None"
proof (induction n arbitrary: st)
  case 0
  show ?case by simp
next
  case (Suc n)
  let ?st1 = "emit (HttpGet (baseURL st) ''/auth/web3/request'') st"
  have t: "connectToNode_try opts all_refuse st = (Inl (Thrown (axios_error ''ECONNREFUSED'')), ?st1)"
    by (simp add: connectToNode_try_def all_refuse_def)
  have "\<exists>u st2. networkResilience (Thrown (axios_error ''ECONNREFUSED'')) all_refuse ?st1 = (Inr u, st2)"
    by (simp add: run_defs world_defs)
  then obtain u st2 where
    "networkResilience (Thrown (axios_error ''ECONNREFUSED'')) all_refuse ?st1 = (Inr u, st2)"
    by blast
  with t assms Suc.IH show ?case by simp
qed

lemma startup_never_settles_when_all_refuse:
  "onModuleInit n dynamic_options all_refuse initial = None"
proof -
  have d: "\<not> truthy (baseUrl dynamic_options)" by (simp add: truthy_def dynamic_options_def)
  have "\<exists>st0. resolveBaseUrl dynamic_options all_refuse initial = (Inr (), st0) \<and>
          baseURL st0 = Some ''http://node-a''"
    by (simp add: resolveBaseUrl_def run_defs world_defs)
  then obtain st0 where r: "resolveBaseUrl dynamic_options all_refuse initial = (Inr (), st0)"
    "baseURL st0 = Some ''http://node-a''" by blast
  then show ?thesis
    by (simp add: onModuleInit_def onModuleInit_try_def startsWith_def
        connectToNode_all_refuse [OF d])
qed

text \<open>
  Claim C8, as stated: every error raised during the startup handshake is caught at the
  top level and logged, \<^verbatim>\<open>onModuleInit\<close> never throws, and the credential stays absent.
  First, under dynamic configuration a recoverable error of the handshake is consumed
  by the failover inside \<^verbatim>\<open>connectToNode\<close>: where the challenge request of startup is
  refused once, the \<^verbatim>\<open>try\<close> block of the handshake raises \<^verbatim>\<open>ECONNREFUSED\<close>, nothing is
  logged as a failure, and startup ends with the credential stored. Second, the
  \<^verbatim>\<open>catch\<close> reads \<^verbatim>\<open>error.code\<close> to build the log line: where the directory service
  rejects with \<^verbatim>\<open>null\<close>, that read throws and \<^verbatim>\<open>onModuleInit\<close> rejects, with nothing
  logged.
\<close>

theorem startup_error_recovered_or_rethrown:
  "connectToNode_try dynamic_options refused_at_startup
       (initial\<lparr>baseURL := Some ''http://node-a'',
                u_operator := Some (membership_operator node_a),
                trace := [GetNodes, LoggerVerbose ''trying to connect with http://node-a...'']\<rparr>)
     = (Inl (Thrown (axios_error ''ECONNREFUSED'')),
        initial\<lparr>baseURL := Some ''http://node-a'',
                u_operator := Some (membership_operator node_a),
                trace := [GetNodes, LoggerVerbose ''trying to connect with http://node-a...'',
                          HttpGet (Some ''http://node-a'') ''/auth/web3/request'']\<rparr>) \<and>
   onModuleInit 2 dynamic_options refused_at_startup initial = Some (Inr (), recovered_startup) \<and>
   trace recovered_startup =
     [GetNodes, LoggerVerbose ''trying to connect with http://node-a...'',
      HttpGet (Some ''http://node-a'') ''/auth/web3/request'',
      GetNodes,
      HttpGet (Some ''http://node-a'') ''/auth/web3/request'',
      Sign challenge_bytes,
      HttpPost (Some ''http://node-a'') ''/auth/web3/login'' challenge_envelope,
      SetInterval 7,
      LoggerVerbose ''connected to node: http://node-a''] \<and>
   login recovered_startup = Some (token ''T1'') \<and>
   onModuleInit 1 dynamic_options directory_rejects_with_null initial =
     Some (Inl (Thrown (cannot_read ''null'' ''code'')), initial\<lparr>trace := [GetNodes]\<rparr>)"
  unfolding recovered_startup_def
  by (simp add: run_defs world_defs challenge_bytes_def challenge_envelope_def
      challenge_payload_def stringify_payload_def json_member_def QuoteJSONString_def
      quote_char_def numeral_2_eq_2)

text \<open>
  Claim C8, amended: every error with which the \<^verbatim>\<open>try\<close> block of \<^verbatim>\<open>onModuleInit\<close> ends,
  that is, every error with which node selection fails and every error with which the
  startup handshake finally rejects, is caught at the top level and, when it is an
  object, logged as \<^verbatim>\<open>failed to connect to node: <base URL>: <error code>\<close>;
  \<^verbatim>\<open>onModuleInit\<close> then resolves and the stored credential is left as it was: absent, at
  startup. \<^verbatim>\<open>onModuleInit\<close> returns whenever the handshake settles, and it rejects only
  when the caught value is \<^verbatim>\<open>undefined\<close> or \<^verbatim>\<open>null\<close>.
\<close>

theorem onModuleInit_logs_unrecovered_errors:
  "(onModuleInit n opts ev st = None \<longleftrightarrow>
      (\<exists>st0 b. resolveBaseUrl opts ev st = (Inr (), st0) \<and> baseURL st0 = Some b \<and>
         startsWith b ''http'' \<and>
         connectToNode n opts ev (emit (LoggerVerbose (''trying to connect with '' @ b @ ''...'')) st0)
           = None)) \<and>
   (onModuleInit_try n opts ev st = Some (Inl (Thrown e), st1) \<longrightarrow>
      onModuleInit n opts ev st =
        Some (Inr (), emit (LoggerError (''failed to connect to node: '' @ template (baseURL st1)
                                         @ '': '' @ template (code e))) st1) \<and>
      login (emit (LoggerError (''failed to connect to node: '' @ template (baseURL st1)
                                @ '': '' @ template (code e))) st1) = login st) \<and>
   (resolveBaseUrl opts ev st = (Inl error, st1) \<longrightarrow>
      onModuleInit_try n opts ev st = Some (Inl error, st1)) \<and>
   (resolveBaseUrl opts ev st = (Inr (), st0) \<and> baseURL st0 = Some b \<and> startsWith b ''http'' \<and>
    connectToNode n opts ev (emit (LoggerVerbose (''trying to connect with '' @ b @ ''...'')) st0)
      = Some (Inl error, st1) \<longrightarrow>
      onModuleInit_try n opts ev st = Some (Inl error, st1)) \<and>
   (onModuleInit n opts ev st = Some (Inl x, st2) \<longrightarrow>
      (onModuleInit_try n opts ev st = Some (Inl ThrowUndefined, st2) \<and>
         x = Thrown (cannot_read ''undefined'' ''code'')) \<or>
      (onModuleInit_try n opts ev st = Some (Inl ThrowNull, st2) \<and>
         x = Thrown (cannot_read ''null'' ''code'')))"
proof -
  have none: "onModuleInit n opts ev st = None \<longleftrightarrow>
      (\<exists>st0 b. resolveBaseUrl opts ev st = (Inr (), st0) \<and> baseURL st0 = Some b \<and>
         startsWith b ''http'' \<and>
         connectToNode n opts ev (emit (LoggerVerbose (''trying to connect with '' @ b @ ''...'')) st0)
           = None)"
  proof -
    have "onModuleInit n opts ev st = None \<longleftrightarrow> onModuleInit_try n opts ev st = None"
      by (auto simp: onModuleInit_def split: option.splits prod.splits sum.splits)
    also have "\<dots> \<longleftrightarrow> (\<exists>st0 b. resolveBaseUrl opts ev st = (Inr (), st0) \<and> baseURL st0 = Some b \<and>
         startsWith b ''http'' \<and>
         connectToNode n opts ev (emit (LoggerVerbose (''trying to connect with '' @ b @ ''...'')) st0)
           = None)"
      by (auto simp: onModuleInit_try_def Let_def
          split: option.splits prod.splits sum.splits if_splits)
    finally show ?thesis .
  qed
  have caught: "onModuleInit n opts ev st =
        Some (Inr (), emit (LoggerError (''failed to connect to node: '' @ template (baseURL st1)
                                         @ '': '' @ template (code e))) st1) \<and>
      login (emit (LoggerError (''failed to connect to node: '' @ template (baseURL st1)
                                @ '': '' @ template (code e))) st1) = login st"
    if "onModuleInit_try n opts ev st = Some (Inl (Thrown e), st1)"
    using onModuleInit_caught [OF that] onModuleInit_try_error_keeps_login [OF that]
    by (simp add: login_def)
  have sel: "onModuleInit_try n opts ev st = Some (Inl error, st1)"
    if "resolveBaseUrl opts ev st = (Inl error, st1)"
    using that by (simp add: onModuleInit_try_def)
  have hs: "onModuleInit_try n opts ev st = Some (Inl error, st1)"
    if "resolveBaseUrl opts ev st = (Inr (), st0)" "baseURL st0 = Some b" "startsWith b ''http''"
       "connectToNode n opts ev (emit (LoggerVerbose (''trying to connect with '' @ b @ ''...'')) st0)
          = Some (Inl error, st1)"
    using that by (simp add: onModuleInit_try_def Let_def)
  have rej: "(onModuleInit_try n opts ev st = Some (Inl ThrowUndefined, st2) \<and>
         x = Thrown (cannot_read ''undefined'' ''code'')) \<or>
      (onModuleInit_try n opts ev st = Some (Inl ThrowNull, st2) \<and>
         x = Thrown (cannot_read ''null'' ''code''))"
    if "onModuleInit n opts ev st = Some (Inl x, st2)"
  proof -
    from that obtain v where v: "onModuleInit_try n opts ev st = Some (Inl v, st2)"
      "read_code v = Inl x"
      by (auto simp: onModuleInit_def split: option.splits prod.splits sum.splits)
    then show ?thesis by (cases v) (simp_all add: read_code_def)
  qed
  show ?thesis using none caught sel hs rej by blast
qed

theorem onModuleInit_logs_unrecovered_errors_witness:
  "onModuleInit_try 1 dynamic_options server_error initial
     = Some (Inl (Thrown (axios_error ''ERR_BAD_RESPONSE'')),
             initial\<lparr>baseURL := Some ''http://node-a'',
                     u_operator := Some (membership_operator node_a),
                     trace := [GetNodes, LoggerVerbose ''trying to connect with http://node-a...'',
                               HttpGet (Some ''http://node-a'') ''/auth/web3/request'']\<rparr>) \<and>
   onModuleInit 1 dynamic_options server_error initial = Some (Inr (), failed_startup) \<and>
   trace failed_startup =
     [GetNodes, LoggerVerbose ''trying to connect with http://node-a...'',
      HttpGet (Some ''http://node-a'') ''/auth/web3/request'',
      LoggerError ''failed to connect to node: http://node-a: ERR_BAD_RESPONSE''] \<and>
   login failed_startup = None"
proof -
  have h: "onModuleInit_try 1 dynamic_options server_error initial
     = Some (Inl (Thrown (axios_error ''ERR_BAD_RESPONSE'')),
             initial\<lparr>baseURL := Some ''http://node-a'',
                     u_operator := Some (membership_operator node_a),
                     trace := [GetNodes, LoggerVerbose ''trying to connect with http://node-a...'',
                               HttpGet (Some ''http://node-a'') ''/auth/web3/request'']\<rparr>)"
    by (simp add: run_defs world_defs server_error_def)
  have f: "failed_startup =
      emit (LoggerError ''failed to connect to node: http://node-a: ERR_BAD_RESPONSE'')
        (initial\<lparr>baseURL := Some ''http://node-a'',
                     u_operator := Some (membership_operator node_a),
                     trace := [GetNodes, LoggerVerbose ''trying to connect with http://node-a...'',
                               HttpGet (Some ''http://node-a'') ''/auth/web3/request'']\<rparr>)"
    unfolding failed_startup_def by (simp add: run_defs world_defs server_error_def)
  let ?s1 = "initial\<lparr>baseURL := Some ''http://node-a'',
                     u_operator := Some (membership_operator node_a),
                     trace := [GetNodes, LoggerVerbose ''trying to connect with http://node-a...'',
                               HttpGet (Some ''http://node-a'') ''/auth/web3/request'']\<rparr>"
  let ?e = "axios_error ''ERR_BAD_RESPONSE''"
  from onModuleInit_logs_unrecovered_errors
    [where n = 1 and opts = dynamic_options and ev = server_error and st = initial
       and e = ?e and ?st1.0 = ?s1] h
  have "onModuleInit 1 dynamic_options server_error initial =
          Some (Inr (), emit (LoggerError (''failed to connect to node: '' @ template (baseURL ?s1)
                                           @ '': '' @ template (code ?e))) ?s1) \<and>
        login (emit (LoggerError (''failed to connect to node: '' @ template (baseURL ?s1)
                                  @ '': '' @ template (code ?e))) ?s1) = login initial"
    by blast
  with h show ?thesis
    unfolding f by (simp add: template_def axios_error_def login_def initial_def emit_def)
qed

text \<open>
  Claim C10: when the base URL that startup resolved, configured or selected, does not
  start with \<^verbatim>\<open>http\<close>, \<^verbatim>\<open>onModuleInit\<close> returns normally for any bound on the attempts, zero
  included: no handshake is run. The effects are those of the resolution alone (nothing,
  or the directory query): no request, no log entry, no timer; the credential is
  unchanged.
\<close>

theorem onModuleInit_skips_non_http_base_url:
  assumes "resolveBaseUrl opts ev st = (Inr (), st0)"
    and "baseURL st0 = Some b"
    and "\<not> startsWith b ''http''"
  shows "onModuleInit n opts ev st = Some (Inr (), st0) \<and>
         login st0 = login st \<and> intervals st0 = intervals st \<and>
         trace st0 = trace st @ (if truthy (baseUrl opts) then [] else [GetNodes])"
  using assms resolveBaseUrl_frame [OF assms(1)]
  by (simp add: onModuleInit_def onModuleInit_try_def login_def)

theorem onModuleInit_skips_non_http_base_url_witness:
  "resolveBaseUrl websocket_options two_nodes initial = (Inr (), initial\<lparr>baseURL := Some ''ws://pinned''\<rparr>) \<and>
   \<not> startsWith ''ws://pinned'' ''http'' \<and>
   onModuleInit 0 websocket_options two_nodes initial = Some (Inr (), initial\<lparr>baseURL := Some ''ws://pinned''\<rparr>) \<and>
   login (initial\<lparr>baseURL := Some ''ws://pinned''\<rparr>) = None \<and>
   trace (initial\<lparr>baseURL := Some ''ws://pinned''\<rparr>) = []"
  using onModuleInit_skips_non_http_base_url
    [of websocket_options two_nodes initial "initial\<lparr>baseURL := Some ''ws://pinned''\<rparr>" "''ws://pinned''" 0]
  by (simp add: resolveBaseUrl_def websocket_options_def dynamic_options_def truthy_def
      startsWith_def initial_def login_def)

subsection \<open>Timers\<close>

lemma at_most_one_timer_iff:
  "at_most_one_timer tr \<longleftrightarrow> (\<forall>k \<le> length tr. length (live (take k tr)) \<le> 1)"
  by (auto simp: at_most_one_timer_def list_all_iff less_Suc_eq_le)

lemma timers_after_quiet:
  "\<forall>x \<in> set evs. \<not> is_timer x \<Longrightarrow> foldl timers_after xs evs = xs"
proof (induction evs arbitrary: xs)
  case Nil
  then show ?case by simp
next
  case (Cons e evs)
  then have "timers_after xs e = xs"
    by (cases e) (simp_all add: timers_after_def)
  with Cons show ?case by simp
qed

lemma live_append: "live (tr @ evs) = foldl timers_after (live tr) evs"
  by (simp add: live_def)

lemma at_most_one_timer_append:
  "at_most_one_timer (tr @ evs) \<longleftrightarrow>
     at_most_one_timer tr \<and>
     (\<forall>j \<le> length evs. length (foldl timers_after (live tr) (take j evs)) \<le> 1)"
proof
  assume a: "at_most_one_timer (tr @ evs)"
  have "length (live (take k tr)) \<le> 1" if "k \<le> length tr" for k
  proof -
    from that have e: "take k tr = take k (tr @ evs)" by simp
    from that have "k \<le> length (tr @ evs)" by simp
    with a have b: "length (live (take k (tr @ evs))) \<le> 1"
      unfolding at_most_one_timer_iff by blast
    show ?thesis unfolding e by (rule b)
  qed
  moreover have "length (foldl timers_after (live tr) (take j evs)) \<le> 1" if "j \<le> length evs" for j
  proof -
    have e: "tr @ take j evs = take (length tr + j) (tr @ evs)" by simp
    from that have "length tr + j \<le> length (tr @ evs)" by simp
    with a have b: "length (live (take (length tr + j) (tr @ evs))) \<le> 1"
      unfolding at_most_one_timer_iff by blast
    have "foldl timers_after (live tr) (take j evs) = live (tr @ take j evs)"
      by (simp only: live_append)
    then show ?thesis unfolding e using b by (simp only:)
  qed
  ultimately show "at_most_one_timer tr \<and>
     (\<forall>j \<le> length evs. length (foldl timers_after (live tr) (take j evs)) \<le> 1)"
    by (simp add: at_most_one_timer_iff)
next
  assume b: "at_most_one_timer tr \<and>
     (\<forall>j \<le> length evs. length (foldl timers_after (live tr) (take j evs)) \<le> 1)"
  have "length (live (take k (tr @ evs))) \<le> 1" if "k \<le> length (tr @ evs)" for k
  proof (cases "k \<le> length tr")
    case True
    with b show ?thesis by (simp add: at_most_one_timer_iff)
  next
    case False
    then have "take k (tr @ evs) = tr @ take (k - length tr) evs" by simp
    moreover from that False have "k - length tr \<le> length evs" by simp
    ultimately show ?thesis using b by (simp add: live_append)
  qed
  then show "at_most_one_timer (tr @ evs)" by (simp add: at_most_one_timer_iff)
qed

lemma timers_ok_le_one:
  assumes "timers_ok st"
  shows "length (intervals st) \<le> 1"
proof -
  from assms have "length (live (take (length (trace st)) (trace st))) \<le> 1"
    unfolding timers_ok_def at_most_one_timer_iff by blast
  with assms show ?thesis by (simp add: timers_ok_def)
qed

lemma timers_ok_quiet:
  assumes "timers_ok st" and "trace st' = trace st @ evs" and "\<forall>x \<in> set evs. \<not> is_timer x"
    and "intervals st' = intervals st"
  shows "timers_ok st'"
proof -
  have q: "foldl timers_after xs (take j evs) = xs" for xs j
    by (rule timers_after_quiet) (use assms(3) in \<open>auto dest: in_set_takeD\<close>)
  from assms(1) have "length (live (trace st)) \<le> 1"
    using timers_ok_le_one by (simp add: timers_ok_def)
  with assms show ?thesis
    by (simp add: timers_ok_def at_most_one_timer_append live_append q timers_after_quiet)
qed

lemma timers_ok_clear:
  assumes "timers_ok st"
  shows "timers_ok (clearInterval i st)"
proof -
  have l: "length (live (trace st)) \<le> 1"
    using timers_ok_le_one [OF assms] assms by (simp add: timers_ok_def)
  have "length (removeAll i (live (trace st))) \<le> length (live (trace st))"
    by (simp add: removeAll_filter_not_eq)
  with l have r: "length (removeAll i (live (trace st))) \<le> 1" by linarith
  have j: "length (foldl timers_after (live (trace st)) (take j [ClearInterval i])) \<le> 1" for j
    by (cases j) (use l r in \<open>simp_all add: timers_after_def\<close>)
  have t: "trace (clearInterval i st) = trace st @ [ClearInterval i]"
    by (simp add: clearInterval_def)
  have a: "intervals (clearInterval i st) = live (trace (clearInterval i st))"
    using assms by (simp add: timers_ok_def clearInterval_def live_append timers_after_def)
  have b: "at_most_one_timer (trace (clearInterval i st))"
    unfolding t at_most_one_timer_append using assms j by (simp only: timers_ok_def) blast
  from a b show ?thesis by (simp only: timers_ok_def)
qed

lemma timers_ok_set:
  assumes "timers_ok st" and "intervals st = []"
    and "trace st' = trace st @ [SetInterval i]" and "intervals st' = [i]"
  shows "timers_ok st'"
proof -
  from assms have e: "live (trace st) = []" by (simp add: timers_ok_def)
  have j: "length (foldl timers_after (live (trace st)) (take j [SetInterval i])) \<le> 1" for j
    unfolding e by (cases j) (simp_all add: timers_after_def)
  have a: "intervals st' = live (trace st')"
    using assms e by (simp add: live_append timers_after_def)
  have b: "at_most_one_timer (trace st')"
    unfolding assms(3) at_most_one_timer_append using assms(1) j
    by (simp only: timers_ok_def) blast
  from a b show ?thesis by (simp only: timers_ok_def)
qed


lemma timers_ok_connectToNode:
  assumes "timers_ok st" and "intervals st = []"
    and "connectToNode n opts ev st = Some (r, st')"
  shows "timers_ok st'"
proof -
  from connectToNode_shape [OF assms(3)] obtain st0 evs where
    s: "trace st0 = trace st @ evs" "\<forall>x \<in> set evs. \<not> is_timer x"
       "intervals st0 = intervals st"
       "(case r of Inl e \<Rightarrow> st' = st0 | Inr c \<Rightarrow> connectToNode_try opts ev st0 = (Inr c, st'))"
    by blast
  from timers_ok_quiet [OF assms(1) s(1,2,3)] have ok0: "timers_ok st0" .
  show ?thesis
  proof (cases r)
    case (Inl e)
    with s ok0 show ?thesis by simp
  next
    case (Inr c)
    with s have "connectToNode_try opts ev st0 = (Inr c, st')" by simp
    from connectToNode_try_Inr [OF this] obtain b payload envelope where
      t: "trace st' = trace st0 @
            [HttpGet b ''/auth/web3/request'', Sign payload,
             HttpPost b ''/auth/web3/login'' envelope, SetInterval (now st0 + 3)]"
         "intervals st' = intervals st0 @ [now st0 + 3]"
      by blast
    define mid where "mid = st0\<lparr>trace := trace st0 @
            [HttpGet b ''/auth/web3/request'', Sign payload,
             HttpPost b ''/auth/web3/login'' envelope]\<rparr>"
    have "timers_ok mid"
      by (rule timers_ok_quiet [OF ok0, of _ "[HttpGet b ''/auth/web3/request'', Sign payload,
             HttpPost b ''/auth/web3/login'' envelope]"]) (simp_all add: mid_def)
    moreover have "intervals mid = []" using s(3) assms(2) by (simp add: mid_def)
    moreover have "trace st' = trace mid @ [SetInterval (now st0 + 3)]"
      using t(1) by (simp add: mid_def)
    moreover have "intervals st' = [now st0 + 3]" using t(2) s(3) assms(2) by simp
    ultimately show ?thesis by (rule timers_ok_set)
  qed
qed

lemma timers_ok_healthCheck:
  assumes "timers_ok st" and "interval \<in> set (intervals st)"
    and "healthCheck n opts ev interval st = Some (r, st')"
  shows "timers_ok st'"
proof -
  have req: "timers_ok (healthCheck_request st)"
    by (rule timers_ok_quiet [OF assms(1), of _ "[HttpGet (baseURL st) ''/auth/profile'']"])
       (simp_all add: healthCheck_request_def)
  show ?thesis
  proof (cases "axios_get ev (now st) (baseURL st) ''/auth/profile''")
    case (Inr profile)
    with assms(3) have "st' = emit (ConsoleLog profile) (healthCheck_request st)"
      by (simp add: healthCheck_def healthCheck_answer_def)
    moreover have "timers_ok (emit (ConsoleLog profile) (healthCheck_request st))"
      by (rule timers_ok_quiet [OF req, of _ "[ConsoleLog profile]"]) simp_all
    ultimately show ?thesis by simp
  next
    case (Inl e)
    with assms(3) obtain r1 where
      c: "connectToNode n opts ev (clearInterval interval (healthCheck_request st)) = Some (r1, st')"
      by (auto simp: healthCheck_def healthCheck_answer_def split: option.splits sum.splits)
    from timers_ok_le_one [OF assms(1)] assms(2) have "intervals st = [interval]"
      by (cases "intervals st") auto
    then have "intervals (clearInterval interval (healthCheck_request st)) = []"
      by (simp add: clearInterval_def healthCheck_request_def)
    from timers_ok_connectToNode [OF timers_ok_clear [OF req] this c] show ?thesis .
  qed
qed

lemma timers_ok_onModuleInit:
  assumes "timers_ok st" and "intervals st = []"
    and "onModuleInit n opts ev st = Some (r, st')"
  shows "timers_ok st'"
proof -
  obtain r0 st0 where r: "resolveBaseUrl opts ev st = (r0, st0)"
    by (cases "resolveBaseUrl opts ev st")
  from resolveBaseUrl_frame [OF r]
  have f: "intervals st0 = intervals st"
    "trace st0 = trace st @ (if truthy (baseUrl opts) then [] else [GetNodes])" by simp_all
  have ok0: "timers_ok st0"
    by (rule timers_ok_quiet [OF assms(1) f(2) _ f(1)]) simp
  have err: "timers_ok (emit (LoggerError m) s)" if "timers_ok s" for m s
    by (rule timers_ok_quiet [OF that, of _ "[LoggerError m]"]) simp_all
  show ?thesis
  proof (cases r0)
    case (Inl e)
    with assms(3) r ok0 err show ?thesis
      by (auto simp: onModuleInit_def onModuleInit_try_def split: sum.splits)
  next
    case (Inr u)
    show ?thesis
    proof (cases "baseURL st0")
      case None
      with assms(3) r Inr ok0 err show ?thesis
        by (auto simp: onModuleInit_def onModuleInit_try_def split: sum.splits)
    next
      case (Some b)
      show ?thesis
      proof (cases "startsWith b ''http''")
        case False
        with assms(3) r Inr Some ok0 show ?thesis
          by (auto simp: onModuleInit_def onModuleInit_try_def)
      next
        case True
        let ?s2 = "emit (LoggerVerbose (''trying to connect with '' @ b @ ''...'')) st0"
        have ok2: "timers_ok ?s2"
          by (rule timers_ok_quiet [OF ok0, of _ "[LoggerVerbose (''trying to connect with '' @ b @ ''...'')]"])
             simp_all
        have i2: "intervals ?s2 = []" using f(1) assms(2) by simp
        from assms(3) r Inr Some True obtain r3 st3 where
          c: "connectToNode n opts ev ?s2 = Some (r3, st3)"
          by (auto simp: onModuleInit_def onModuleInit_try_def Let_def split: option.splits)
        from timers_ok_connectToNode [OF ok2 i2 c] have ok3: "timers_ok st3" .
        show ?thesis
        proof (cases r3)
          case (Inl e)
          with assms(3) r Inr Some True c ok3 err show ?thesis
            by (auto simp: onModuleInit_def onModuleInit_try_def Let_def split: sum.splits)
        next
          case (Inr credentials)
          let ?s4 = "st3\<lparr>u_login := Some credentials\<rparr>"
          have "timers_ok ?s4"
            by (rule timers_ok_quiet [OF ok3, of _ "[]"]) simp_all
          then have "timers_ok (emit (LoggerVerbose (''connected to node: '' @ template (baseURL ?s4))) ?s4)"
            by (rule timers_ok_quiet [of _ _ "[LoggerVerbose (''connected to node: '' @ template (baseURL ?s4))]"])
               simp_all
          with assms(3) r \<open>r0 = Inr u\<close> Some True c Inr show ?thesis
            by (auto simp: onModuleInit_def onModuleInit_try_def Let_def)
        qed
      qed
    qed
  qed
qed

lemma timers_ok_initial: "timers_ok initial"
  by (simp add: timers_ok_def initial_def live_def at_most_one_timer_def)

lemma run_one_at_a_time:
  assumes "timers_ok st"
    and "run n opts ev (one_at_a_time ticks) \<lparr>client = st, pending = []\<rparr> = Some sys"
  shows "timers_ok (client sys) \<and> pending sys = []"
  using assms
proof (induction ticks arbitrary: st)
  case Nil
  then show ?case by (auto simp: one_at_a_time_def)
next
  case (Cons interval ticks)
  from Cons.prems(2) have i: "interval \<in> set (intervals st)"
    by (auto simp: one_at_a_time_def timer_fires_def split: if_splits)
  with Cons.prems(2) obtain r st1 where
    h: "healthCheck n opts ev interval st = Some (r, st1)"
    and rest: "run n opts ev (one_at_a_time ticks) \<lparr>client = st1, pending = []\<rparr> = Some sys"
    by (auto simp: one_at_a_time_def timer_fires_def answer_arrives_def healthCheck_def
        healthCheck_request_def split: option.splits)
  from timers_ok_healthCheck [OF Cons.prems(1) i h] have "timers_ok st1" .
  from Cons.IH [OF this rest] show ?case .
qed


text \<open>
  Claim C9, as stated: at every point of any execution at most one recurring health
  check is scheduled. Nothing in the code keeps a timer from firing while the callback of
  its previous tick still awaits the profile answer. In the world where the session is
  lost, after startup (timer 5): the timer fires twice before the first answer arrives;
  both answers are errors; each callback clears timer 5 and runs the handshake again, and
  each handshake, succeeding, schedules a timer. Timers 13 and 18 are then both scheduled.
\<close>

theorem overlapping_health_checks_leave_two_timers:
  "onModuleInit 1 dynamic_options session_lost initial = Some (Inr (), after_startup) \<and>
   intervals after_startup = [5] \<and>
   (\<exists>sys. run 1 dynamic_options session_lost [Timer 5, Timer 5, Answer, Answer]
             \<lparr>client = after_startup, pending = []\<rparr> = Some sys \<and>
          intervals (client sys) = [13, 18] \<and>
          live (trace (client sys)) = [13, 18] \<and>
          pending sys = [])"
  unfolding after_startup_def
  by (simp add: run_defs world_defs timer_fires_def answer_arrives_def live_def timers_after_def)

text \<open>
  Claim C9, amended: in every execution in which each run of the health-check callback,
  with the handshake it re-runs, ends before a timer fires again, at most one recurring
  health check is scheduled at every point: after startup and any number of such runs the
  timers of the instance are those its effects leave, and no prefix of the effects leaves
  more than one. A handshake that rejects creates no timer, and a failed health check
  clears its timer before the challenge request of the re-run handshake.
\<close>

theorem one_timer_when_health_checks_do_not_overlap:
  assumes "onModuleInit n opts ev initial = Some (r, st)"
    and "run m opts ev (one_at_a_time ticks) \<lparr>client = st, pending = []\<rparr> = Some sys"
  shows "length (intervals (client sys)) \<le> 1 \<and>
         intervals (client sys) = live (trace (client sys)) \<and>
         at_most_one_timer (trace (client sys)) \<and>
         (connectToNode k opts ev s = Some (Inl e, s1) \<longrightarrow>
            intervals s1 = intervals s \<and> live (trace s1) = live (trace s)) \<and>
         (axios_get ev (now s) (baseURL s) ''/auth/profile'' = Inl e \<and>
          healthCheck k opts ev interval s = Some (r2, s2) \<longrightarrow>
            (\<exists>evs. trace s2 = trace s @ HttpGet (baseURL s) ''/auth/profile'' #
                      ClearInterval interval # HttpGet (baseURL s) ''/auth/web3/request'' # evs))"
proof -
  have "timers_ok st"
    by (rule timers_ok_onModuleInit [OF timers_ok_initial _ assms(1)]) (simp add: initial_def)
  from run_one_at_a_time [OF this assms(2)] have ok: "timers_ok (client sys)" by simp
  have a: "intervals s1 = intervals s \<and> live (trace s1) = live (trace s)"
    if "connectToNode k opts ev s = Some (Inl e, s1)"
  proof -
    from connectToNode_shape [OF that] obtain evs where
      "trace s1 = trace s @ evs" "\<forall>x \<in> set evs. \<not> is_timer x" "intervals s1 = intervals s"
      by auto
    then show ?thesis by (simp add: live_append timers_after_quiet)
  qed
  have b: "\<exists>evs. trace s2 = trace s @ HttpGet (baseURL s) ''/auth/profile'' #
                      ClearInterval interval # HttpGet (baseURL s) ''/auth/web3/request'' # evs"
    if "axios_get ev (now s) (baseURL s) ''/auth/profile'' = Inl e"
       "healthCheck k opts ev interval s = Some (r2, s2)"
  proof -
    from that obtain r1 where
      "connectToNode k opts ev (clearInterval interval (healthCheck_request s)) = Some (r1, s2)"
      by (auto simp: healthCheck_def healthCheck_answer_def split: option.splits sum.splits)
    from connectToNode_first_effect [OF this] show ?thesis
      by (auto simp: clearInterval_def healthCheck_request_def)
  qed
  from ok timers_ok_le_one [OF ok] a b show ?thesis
    by (simp only: timers_ok_def) blast
qed

theorem one_timer_when_health_checks_do_not_overlap_witness:
  "onModuleInit 1 dynamic_options session_lost initial = Some (Inr (), after_startup) \<and>
   run 1 dynamic_options session_lost (one_at_a_time [5]) \<lparr>client = after_startup, pending = []\<rparr>
     = Some \<lparr>client = after_reauthentication, pending = []\<rparr> \<and>
   intervals after_reauthentication = [12] \<and>
   length (intervals after_reauthentication) \<le> 1 \<and>
   intervals after_reauthentication = live (trace after_reauthentication) \<and>
   at_most_one_timer (trace after_reauthentication) \<and>
   axios_get session_lost (now after_startup) (baseURL after_startup) ''/auth/profile''
     = Inl (Thrown (axios_error ''ERR_BAD_REQUEST'')) \<and>
   (\<exists>evs. trace after_reauthentication =
      trace after_startup @ HttpGet (baseURL after_startup) ''/auth/profile'' #
        ClearInterval 5 # HttpGet (baseURL after_startup) ''/auth/web3/request'' # evs)"
proof -
  have s: "onModuleInit 1 dynamic_options session_lost initial = Some (Inr (), after_startup)"
    unfolding after_startup_def by (simp add: run_defs world_defs)
  have h: "healthCheck 1 dynamic_options session_lost 5 after_startup
             = Some (Inr (), after_reauthentication)"
    and i: "intervals after_reauthentication = [12]"
    and g: "axios_get session_lost (now after_startup) (baseURL after_startup) ''/auth/profile''
              = Inl (Thrown (axios_error ''ERR_BAD_REQUEST''))"
    and t: "5 \<in> set (intervals after_startup)"
    unfolding after_reauthentication_def after_startup_def
    by (simp_all add: run_defs world_defs)
  have r: "run 1 dynamic_options session_lost (one_at_a_time [5])
             \<lparr>client = after_startup, pending = []\<rparr>
           = Some \<lparr>client = after_reauthentication, pending = []\<rparr>"
    using h t
    by (simp add: one_at_a_time_def timer_fires_def answer_arrives_def healthCheck_def)
  note inst = one_timer_when_health_checks_do_not_overlap
    [OF s r, where k = 1 and s = after_startup and e = "Thrown (axios_error ''ERR_BAD_REQUEST'')"
       and interval = 5 and ?r2.0 = "Inr ()" and ?s2.0 = after_reauthentication
       and ?s1.0 = after_startup, unfolded system.select_convs]
  from inst g h
  have "length (intervals after_reauthentication) \<le> 1 \<and>
   intervals after_reauthentication = live (trace after_reauthentication) \<and>
   at_most_one_timer (trace after_reauthentication) \<and>
   (\<exists>evs. trace after_reauthentication =
      trace after_startup @ HttpGet (baseURL after_startup) ''/auth/profile'' #
        ClearInterval 5 # HttpGet (baseURL after_startup) ''/auth/web3/request'' # evs)"
    by blast
  with s r i g show ?thesis by blast
qed

end
